theory Spec2Isabelle
  imports Main "HOL-Library.AList" "HOL-Library.Char_ord" "HOL-Library.List_Lexorder"
    "HOL-Library.Multiset"
begin

section \<open>Values, dictionaries and exceptions\<close>

text \<open>
  The exporter handles JSON-like Python values: the registry's REST answers, the
  dictionaries built from model versions, log payloads and the summary block. A Python
  \<^verbatim>\<open>dict\<close> keeps its keys in insertion order, and the model descriptor's key order is
  part of what \<^verbatim>\<open>_adjust_model\<close> arranges, so a dictionary is an association list.
  Floating point numbers do not occur in the values the code inspects and are left out.
\<close>

datatype json =
    JNull
  | JBool bool
  | JInt int
  | JStr string
  | JList "json list"
  | JObj "(string \<times> json) list"

type_synonym dict = "(string \<times> json) list"

text \<open>\<^verbatim>\<open>d.get(k, None)\<close>: the value under \<open>k\<close>, or \<^verbatim>\<open>None\<close>.\<close>

definition dict_get :: "dict \<Rightarrow> string \<Rightarrow> json" where
  "dict_get d k = (case map_of d k of None \<Rightarrow> JNull | Some v \<Rightarrow> v)"

text \<open>
  \<^verbatim>\<open>d[k] = v\<close>: an existing key keeps its position and takes the new value, a new key
  goes to the end.
\<close>

definition dict_set :: "dict \<Rightarrow> string \<Rightarrow> json \<Rightarrow> dict" where
  "dict_set d k v = AList.update k v d"

text \<open>\<^verbatim>\<open>d.pop(k, None)\<close>: the value that was stored (or \<^verbatim>\<open>None\<close>) and the dictionary without the key.\<close>

definition dict_pop :: "dict \<Rightarrow> string \<Rightarrow> json \<times> dict" where
  "dict_pop d k = (dict_get d k, AList.delete k d)"

text \<open>Python's truth value of an object, as \<^verbatim>\<open>if tags:\<close> tests it.\<close>

fun truthy :: "json \<Rightarrow> bool" where
  "truthy JNull = False"
| "truthy (JBool b) = b"
| "truthy (JInt i) = (i \<noteq> 0)"
| "truthy (JStr s) = (s \<noteq> [])"
| "truthy (JList xs) = (xs \<noteq> [])"
| "truthy (JObj d) = (d \<noteq> [])"

text \<open>
  The exceptions the code meets, all of them subclasses of Python's \<^verbatim>\<open>Exception\<close>:
  \<^verbatim>\<open>RestException\<close> carries the structured payload \<^verbatim>\<open>e.json\<close>;
  \<^verbatim>\<open>MlflowExportImportException\<close> carries its message and HTTP status code; the
  others stand for the built-in errors of dictionary access, attribute access and
  comparison, and for any other exception a collaborator raises.
\<close>

datatype exn =
    RestException dict
  | MlflowExportImportException json nat
  | KeyError string
  | AttributeError string
  | TypeError string
  | OtherException string

text \<open>
  A computation of the program either raises (\<open>Inl\<close>) or returns (\<open>Inr\<close>), and leaves a
  new state behind in both cases.
\<close>

type_synonym ('a, 's) comp = "'s \<Rightarrow> (exn + 'a) \<times> 's"

definition bind :: "('a, 's) comp \<Rightarrow> ('a \<Rightarrow> ('b, 's) comp) \<Rightarrow> ('b, 's) comp" where
  "bind m k s = (case m s of (Inl e, s') \<Rightarrow> (Inl e, s') | (Inr x, s') \<Rightarrow> k x s')"

definition return :: "'a \<Rightarrow> ('a, 's) comp" where
  "return x s = (Inr x, s)"

definition raise :: "exn \<Rightarrow> ('a, 's) comp" where
  "raise e s = (Inl e, s)"

section \<open>Strings\<close>

text \<open>
  \<^verbatim>\<open>str.lower()\<close> and \<^verbatim>\<open>str.split(",")\<close>. Strings are ASCII: \<open>lower\<close> maps the letters
  \<open>A\<close> to \<open>Z\<close> and leaves every other character alone.
\<close>

definition lower_char :: "char \<Rightarrow> char" where
  "lower_char c =
     (case map_of (zip ''ABCDEFGHIJKLMNOPQRSTUVWXYZ'' ''abcdefghijklmnopqrstuvwxyz'') c of
        None \<Rightarrow> c
      | Some l \<Rightarrow> l)"

definition lower :: "string \<Rightarrow> string" where
  "lower s = map lower_char s"

fun split_on :: "char \<Rightarrow> string \<Rightarrow> string list" where
  "split_on sep [] = [[]]"
| "split_on sep (c # cs) =
     (if c = sep then [] # split_on sep cs
      else (case split_on sep cs of
              [] \<Rightarrow> [[c]]
            | t # ts \<Rightarrow> (c # t) # ts))"

text \<open>
  \<^verbatim>\<open>os.path.join(a, b)\<close> on POSIX: an absolute second component replaces the first; an
  empty first component or one that ends with a slash takes no separator.
\<close>

definition os_path_join :: "string \<Rightarrow> string \<Rightarrow> string" where
  "os_path_join a b =
     (if b \<noteq> [] \<and> hd b = CHR ''/'' then b
      else if a = [] \<or> last a = CHR ''/'' then a @ b
      else a @ ''/'' @ b)"

section \<open>Registry entities, options and collaborators\<close>

text \<open>
  A version identifier is what the registry hands out: a string over REST (the command
  line splits its \<^verbatim>\<open>--versions\<close> argument into strings and compares them with
  \<^verbatim>\<open>vr.version\<close>), an integer from a database-backed store.
\<close>

datatype version_id = VInt int | VStr string

fun json_of_version :: "version_id \<Rightarrow> json" where
  "json_of_version (VInt i) = JInt i"
| "json_of_version (VStr s) = JStr s"

text \<open>
  A \<^verbatim>\<open>ModelVersion\<close> entity: the attributes the code reads, and \<open>properties\<close> for the
  entity's remaining properties (timestamps, source, status, tags and so on), which only
  \<^verbatim>\<open>dict(vr)\<close> copies.
\<close>

record model_version =
  name :: string
  version :: version_id
  current_stage :: string
  run_id :: string
  properties :: dict

text \<open>\<^verbatim>\<open>dict(vr)\<close>: every property of the entity under its name.\<close>

definition dict_of_model_version :: "model_version \<Rightarrow> dict" where
  "dict_of_model_version vr =
     dict_set (dict_set (dict_set (dict_set (properties vr)
       ''name'' (JStr (name vr)))
       ''version'' (json_of_version (version vr)))
       ''current_stage'' (JStr (current_stage vr)))
       ''run_id'' (JStr (run_id vr))"

text \<open>\<^verbatim>\<open>run.info\<close> of a fetched run, as far as the code reads it.\<close>

record run_info =
  artifact_uri :: string
  experiment_id :: string

datatype mlflow_client = MlflowClient (tracking_uri: string) (registry_uri: string)

record Options =
  stages :: "string list"
  versions :: "version_id list"
  export_latest_versions :: bool
  export_deleted_runs :: bool
  export_version_model :: bool
  export_permissions :: bool
  notebook_formats :: "string list option"

text \<open>
  The collaborators are not part of the code under verification: the registry client, the
  run exporter and importer, the REST client, the permission reader, the file writer, the
  timestamp formatter, the temporary-directory maker and the stage vocabulary of the
  MLflow library. Each is a parameter. An effectful collaborator takes the world it acts on
  and returns the world it leaves, together with its result or the exception it raises;
  nothing is assumed about what it does.
\<close>

record 'w env =
  default_client :: mlflow_client
  list_model_versions :: "mlflow_client \<Rightarrow> string \<Rightarrow> bool \<Rightarrow> (model_version list, 'w) comp"
  export_run :: "string \<Rightarrow> string \<Rightarrow> bool option \<Rightarrow> string list option \<Rightarrow>
                 mlflow_client option \<Rightarrow> (unit, 'w) comp"
  import_run :: "string \<Rightarrow> string \<Rightarrow> mlflow_client \<Rightarrow> (json \<times> json, 'w) comp"
  get_run :: "mlflow_client \<Rightarrow> string \<Rightarrow> (run_info, 'w) comp"
  get_experiment :: "string \<Rightarrow> (string, 'w) comp"
  export_version_model_uri :: "mlflow_client \<Rightarrow> model_version \<Rightarrow> string \<Rightarrow> (json, 'w) comp"
  is_importing_into_databricks :: "(bool, 'w) comp"
  http_get :: "string \<Rightarrow> string \<Rightarrow> dict \<Rightarrow> (dict, 'w) comp"
  get_model_permissions :: "string \<Rightarrow> json \<Rightarrow> (json, 'w) comp"
  write_export_file :: "string \<Rightarrow> string \<Rightarrow> string \<Rightarrow> dict \<Rightarrow> dict \<Rightarrow> (unit, 'w) comp"
  fmt_ts_millis :: "json \<Rightarrow> exn + json"
  mkdtemp :: "(string, 'w) comp"
  canonical_mapping :: "(string \<times> string) list"
  all_stages :: "string list"

section \<open>Logging\<close>

text \<open>
  What the module writes through \<^verbatim>\<open>_logger\<close> and \<^verbatim>\<open>traceback.print_exc()\<close> is kept
  beside the world, so that log lines can be told from the collaborators' effects. A
  formatted message is the list of its segments; the quotation marks that a message puts
  around an interpolated value are kept in the stage warning and left out elsewhere.
\<close>

datatype log_level = INFO | WARNING | ERROR

datatype log_record = Log log_level json | LogException string exn | PrintExc exn

record 'w st =
  world :: 'w
  logs :: "log_record list"

definition logger :: "log_level \<Rightarrow> json \<Rightarrow> 'w st \<Rightarrow> 'w st" where
  "logger lvl msg s = s\<lparr>logs := logs s @ [Log lvl msg]\<rparr>"

definition print_exc :: "exn \<Rightarrow> 'w st \<Rightarrow> 'w st" where
  "print_exc e s = s\<lparr>logs := logs s @ [PrintExc e]\<rparr>"

text \<open>A collaborator's call, made from a state that also holds the log.\<close>

definition call :: "('a, 'w) comp \<Rightarrow> ('a, 'w st) comp" where
  "call f s = (case f (world s) of (r, w') \<Rightarrow> (r, s\<lparr>world := w'\<rparr>))"

section \<open>The stage normalizer\<close>

text \<open>
  The \<^verbatim>\<open>stages\<close> argument of \<^verbatim>\<open>export_model\<close>: \<^verbatim>\<open>None\<close>, a comma-joined string, or a
  sequence of strings.
\<close>

datatype stages_arg = StagesNone | StagesStr string | StagesList "string list"

text \<open>
  The warning for a token outside the vocabulary:
  \<^verbatim>\<open>f"stage '{stage}' must be one of: {model_version_stages.ALL_STAGES}"\<close>.
\<close>

definition stage_warning :: "'w env \<Rightarrow> string \<Rightarrow> log_record" where
  "stage_warning env stage =
     Log WARNING (JList [JStr (''stage '' @ [CHR 0x27]), JStr stage,
                         JStr ([CHR 0x27] @ '' must be one of: ''),
                         JList (map JStr (all_stages env))])"

text \<open>The loop over the lower-cased tokens: one warning for each token outside the vocabulary.\<close>

fun warn_stages :: "'w env \<Rightarrow> string list \<Rightarrow> 'w st \<Rightarrow> 'w st" where
  "warn_stages env [] s = s"
| "warn_stages env (stage # rest) s =
     (if stage \<notin> set (map fst (canonical_mapping env))
      then warn_stages env rest (s\<lparr>logs := logs s @ [stage_warning env stage]\<rparr>)
      else warn_stages env rest s)"

text \<open>
  \<^verbatim>\<open>_normalize_stages\<close>. No operation of its body can raise on these inputs. (A Python
  name that starts with an underscore is written with the prefix \<open>priv_\<close>.)
\<close>

definition priv_normalize_stages :: "'w env \<Rightarrow> stages_arg \<Rightarrow> 'w st \<Rightarrow> string list \<times> 'w st" where
  "priv_normalize_stages env stgs s =
     (case stgs of
        StagesNone \<Rightarrow> ([], s)
      | StagesStr str \<Rightarrow>
          (if str = [] then ([], s)
           else (let stgs' = map lower (split_on CHR '','' str)
                 in (stgs', warn_stages env stgs' s)))
      | StagesList l \<Rightarrow>
          (let stgs' = map lower l
           in (stgs', warn_stages env stgs' s)))"

text \<open>
  The tokens of a stage filter as the specification describes them: none for \<^verbatim>\<open>None\<close>
  and for the empty string, the comma-separated pieces of a string, the elements of a
  sequence.
\<close>

definition stage_tokens :: "stages_arg \<Rightarrow> string list" where
  "stage_tokens stgs =
     (case stgs of
        StagesNone \<Rightarrow> []
      | StagesStr str \<Rightarrow> (if str = [] then [] else split_on CHR '','' str)
      | StagesList l \<Rightarrow> l)"

section \<open>The version export driver\<close>

text \<open>
  The body of the \<^verbatim>\<open>try\<close> in \<^verbatim>\<open>_export_version\<close>: export the run, fetch it again, copy
  the version's properties and add the derived fields. Every call may raise.
\<close>

definition export_version_body ::
  "'w env \<Rightarrow> mlflow_client \<Rightarrow> model_version \<Rightarrow> string \<Rightarrow> string \<Rightarrow> Options \<Rightarrow> (dict, 'w st) comp"
where
  "export_version_body env client vr output_dir opath opts =
     bind (call (export_run env (run_id vr) opath
                   (Some (export_deleted_runs opts)) (notebook_formats opts) None)) (\<lambda>_.
     bind (call (get_run env client (run_id vr))) (\<lambda>run.
     bind (call (get_experiment env (experiment_id run))) (\<lambda>experiment_name.
       (let vr_dct = dict_set (dict_set (dict_of_model_version vr)
                       ''_run_artifact_uri'' (JStr (artifact_uri run)))
                       ''_experiment_name'' (JStr experiment_name)
        in if export_version_model opts
           then bind (call (export_version_model_uri env client vr output_dir)) (\<lambda>uri.
                  return (dict_set vr_dct ''_download_uri'' uri))
           else return vr_dct))))"

text \<open>
  The failure record of \<^verbatim>\<open>_export_version\<close>: the message that classifies the error,
  then model name, version, run id and the raw payload \<^verbatim>\<open>e.json\<close>.
\<close>

definition version_err_msg :: "model_version \<Rightarrow> dict \<Rightarrow> dict" where
  "version_err_msg vr ejson =
     [(''model'', JStr (name vr)), (''version'', json_of_version (version vr)),
      (''run_id'', JStr (run_id vr)), (''RestException'', JObj ejson)]"

text \<open>
  \<^verbatim>\<open>_export_version\<close>. The two accumulator lists are mutated in place by the source; here
  they are passed in and returned. Only \<^verbatim>\<open>RestException\<close> has a handler: any other
  exception leaves the function, and the lists with it.
\<close>

definition priv_export_version ::
  "'w env \<Rightarrow> mlflow_client \<Rightarrow> model_version \<Rightarrow> string \<Rightarrow> dict list \<Rightarrow> dict list \<Rightarrow> nat \<Rightarrow> nat \<Rightarrow>
   Options \<Rightarrow> (dict list \<times> dict list, 'w st) comp"
where
  "priv_export_version env client vr output_dir output_versions failed_versions j num_versions
     opts s =
     (let opath = os_path_join output_dir (run_id vr);
          msg = [(''name'', JStr (name vr)), (''version'', json_of_version (version vr)),
                 (''stage'', JStr (current_stage vr))];
          s0 = logger INFO
                 (JList [JStr ''Exporting model verson '', JInt (int j + 1), JStr ''/'',
                         JInt (int num_versions), JStr '': '', JObj msg, JStr '' to '',
                         JStr opath]) s
      in case export_version_body env client vr output_dir opath opts s0 of
           (Inr vr_dct, s1) \<Rightarrow> (Inr (output_versions @ [vr_dct], failed_versions), s1)
         | (Inl (RestException ejson), s1) \<Rightarrow>
             (if dict_get ejson ''error_code'' = JStr ''RESOURCE_DOES_NOT_EXIST''
              then (let err_msg = (''message'', JStr ''Version run probably does not exist'')
                                    # version_err_msg vr ejson
                    in (Inr (output_versions, failed_versions @ [err_msg]),
                        logger ERROR (JObj err_msg) s1))
              else (let err_msg = (''message'', JStr ''Version cannot be exported'')
                                    # version_err_msg vr ejson
                    in (Inr (output_versions, failed_versions @ [err_msg]),
                        print_exc (RestException ejson) (logger ERROR (JObj err_msg) s1))))
         | (Inl e, s1) \<Rightarrow> (Inl e, s1))"

text \<open>
  The loop of \<^verbatim>\<open>_export_versions\<close> over \<^verbatim>\<open>enumerate(versions)\<close>: \<open>j\<close> is the index of
  the head of the remaining list, \<open>n\<close> is \<^verbatim>\<open>len(versions)\<close>.
\<close>

fun export_versions_loop ::
  "'w env \<Rightarrow> mlflow_client \<Rightarrow> model_version list \<Rightarrow> nat \<Rightarrow> nat \<Rightarrow> string \<Rightarrow> Options \<Rightarrow>
   dict list \<Rightarrow> dict list \<Rightarrow> (dict list \<times> dict list, 'w st) comp"
where
  "export_versions_loop env client [] j n output_dir opts output_versions failed_versions s =
     (Inr (output_versions, failed_versions), s)"
| "export_versions_loop env client (vr # rest) j n output_dir opts output_versions
     failed_versions s =
     (if length (stages opts) > 0 \<and> \<not> lower (current_stage vr) \<in> set (stages opts)
      then export_versions_loop env client rest (Suc j) n output_dir opts output_versions
             failed_versions s
      else if length (versions opts) > 0 \<and> \<not> version vr \<in> set (versions opts)
      then export_versions_loop env client rest (Suc j) n output_dir opts output_versions
             failed_versions s
      else (case priv_export_version env client vr output_dir output_versions failed_versions
                   j n opts s of
              (Inl e, s') \<Rightarrow> (Inl e, s')
            | (Inr (output_versions', failed_versions'), s') \<Rightarrow>
                export_versions_loop env client rest (Suc j) n output_dir opts
                  output_versions' failed_versions' s'))"

text \<open>
  Python's \<^verbatim>\<open><\<close> on the keys the sort compares. A key is \<^verbatim>\<open>x["version"]\<close>, a version
  identifier: two integers compare by value, two strings lexicographically by character
  code, and an integer against a string raises \<^verbatim>\<open>TypeError\<close>, as does every pair
  with a value that is neither.
\<close>

fun py_lt :: "json \<Rightarrow> json \<Rightarrow> exn + bool" where
  "py_lt (JInt a) (JInt b) = Inr (a < b)"
| "py_lt (JStr a) (JStr b) = Inr (a < b)"
| "py_lt a b = Inl (TypeError ''< not supported between instances'')"

text \<open>
  \<^verbatim>\<open>list.sort(key=...)\<close>: the keys are computed first (a dictionary without the key
  raises \<^verbatim>\<open>KeyError\<close>), then the list is sorted by them with \<^verbatim>\<open><\<close> alone, stably. On
  keys that \<^verbatim>\<open><\<close> orders the stable result is unique, and insertion from the right
  computes it; on a mix of integers and strings any comparison sort meets a mixed pair and
  \<^verbatim>\<open>TypeError\<close> leaves the sort, here as there.
\<close>

fun sort_keys :: "string \<Rightarrow> dict list \<Rightarrow> exn + (json \<times> dict) list" where
  "sort_keys k [] = Inr []"
| "sort_keys k (x # xs) =
     (case map_of x k of
        None \<Rightarrow> Inl (KeyError k)
      | Some v \<Rightarrow> (case sort_keys k xs of Inl e \<Rightarrow> Inl e | Inr kxs \<Rightarrow> Inr ((v, x) # kxs)))"

fun py_insort :: "json \<times> dict \<Rightarrow> (json \<times> dict) list \<Rightarrow> exn + (json \<times> dict) list" where
  "py_insort x [] = Inr [x]"
| "py_insort x (y # ys) =
     (case py_lt (fst y) (fst x) of
        Inl e \<Rightarrow> Inl e
      | Inr True \<Rightarrow> (case py_insort x ys of Inl e \<Rightarrow> Inl e | Inr zs \<Rightarrow> Inr (y # zs))
      | Inr False \<Rightarrow> Inr (x # y # ys))"

fun py_sort_pairs :: "(json \<times> dict) list \<Rightarrow> exn + (json \<times> dict) list" where
  "py_sort_pairs [] = Inr []"
| "py_sort_pairs (x # xs) =
     (case py_sort_pairs xs of Inl e \<Rightarrow> Inl e | Inr ys \<Rightarrow> py_insort x ys)"

definition py_sort_by :: "string \<Rightarrow> dict list \<Rightarrow> exn + dict list" where
  "py_sort_by k xs =
     (case sort_keys k xs of
        Inl e \<Rightarrow> Inl e
      | Inr kxs \<Rightarrow> (case py_sort_pairs kxs of Inl e \<Rightarrow> Inl e | Inr ys \<Rightarrow> Inr (map snd ys)))"

text \<open>\<^verbatim>\<open>_export_versions\<close>.\<close>

definition priv_export_versions ::
  "'w env \<Rightarrow> mlflow_client \<Rightarrow> model_version list \<Rightarrow> string \<Rightarrow> Options \<Rightarrow>
   (dict list \<times> dict list, 'w st) comp"
where
  "priv_export_versions env client vrs output_dir opts =
     bind (export_versions_loop env client vrs 0 (length vrs) output_dir opts [] [])
       (\<lambda>(output_versions, failed_versions).
          (case py_sort_by ''version'' output_versions of
             Inl e \<Rightarrow> raise e
           | Inr sorted_versions \<Rightarrow> return (sorted_versions, failed_versions)))"

text \<open>
  The Version Selector as the specification words it: a non-empty stage set keeps the
  versions whose lower-cased stage is a member, a non-empty version set keeps the versions
  whose identifier is a member, and empty filters let every version pass.
\<close>

definition version_selector :: "Options \<Rightarrow> model_version list \<Rightarrow> model_version list" where
  "version_selector opts vrs =
     (let by_stage = (if stages opts \<noteq> []
                      then filter (\<lambda>vr. lower (current_stage vr) \<in> set (stages opts)) vrs
                      else vrs)
      in if versions opts \<noteq> []
         then filter (\<lambda>vr. version vr \<in> set (versions opts)) by_stage
         else by_stage)"

text \<open>
  The per-version export run over a list of versions with their positions: what the
  driver's loop does once the selection is made.
\<close>

fun export_each ::
  "'w env \<Rightarrow> mlflow_client \<Rightarrow> (nat \<times> model_version) list \<Rightarrow> nat \<Rightarrow> string \<Rightarrow> Options \<Rightarrow>
   dict list \<Rightarrow> dict list \<Rightarrow> (dict list \<times> dict list, 'w st) comp"
where
  "export_each env client [] n output_dir opts output_versions failed_versions s =
     (Inr (output_versions, failed_versions), s)"
| "export_each env client ((j, vr) # rest) n output_dir opts output_versions failed_versions s =
     (case priv_export_version env client vr output_dir output_versions failed_versions
             j n opts s of
        (Inl e, s') \<Rightarrow> (Inl e, s')
      | (Inr (output_versions', failed_versions'), s') \<Rightarrow>
          export_each env client rest n output_dir opts output_versions' failed_versions' s')"

section \<open>The descriptor assembler\<close>

text \<open>\<^verbatim>\<open>_adjust_timestamp\<close>: \<^verbatim>\<open>dct[f"_{attr}"] = fmt_ts_millis(dct.get(attr, None))\<close>.\<close>

definition priv_adjust_timestamp :: "'w env \<Rightarrow> dict \<Rightarrow> string \<Rightarrow> exn + dict" where
  "priv_adjust_timestamp env dct attr =
     (case fmt_ts_millis env (dict_get dct attr) of
        Inl e \<Rightarrow> Inl e
      | Inr formatted \<Rightarrow> Inr (dict_set dct (''_'' @ attr) formatted))"

text \<open>The loop of \<^verbatim>\<open>_adjust_model\<close> over the version dictionaries.\<close>

fun adjust_versions :: "'w env \<Rightarrow> dict list \<Rightarrow> exn + dict list" where
  "adjust_versions env [] = Inr []"
| "adjust_versions env (vr # rest) =
     (case priv_adjust_timestamp env vr ''creation_timestamp'' of
        Inl e \<Rightarrow> Inl e
      | Inr vr1 \<Rightarrow>
          (case priv_adjust_timestamp env vr1 ''last_updated_timestamp'' of
             Inl e \<Rightarrow> Inl e
           | Inr vr2 \<Rightarrow>
               (case adjust_versions env rest of
                  Inl e \<Rightarrow> Inl e
                | Inr rest' \<Rightarrow> Inr (vr2 # rest'))))"

text \<open>
  \<^verbatim>\<open>_adjust_model\<close>. The source mutates the model dictionary and the version
  dictionaries in place; the function returns both as they are afterwards.
\<close>

definition priv_adjust_model :: "'w env \<Rightarrow> dict \<Rightarrow> dict list \<Rightarrow> exn + dict \<times> dict list" where
  "priv_adjust_model env model vrs =
     (case priv_adjust_timestamp env model ''creation_timestamp'' of
        Inl e \<Rightarrow> Inl e
      | Inr model1 \<Rightarrow>
          (case priv_adjust_timestamp env model1 ''last_updated_timestamp'' of
             Inl e \<Rightarrow> Inl e
           | Inr model2 \<Rightarrow>
               (let (tags, model3) = dict_pop model2 ''tags'';
                    model4 = (if truthy tags then dict_set model3 ''tags'' tags else model3)
                in case adjust_versions env vrs of
                     Inl e \<Rightarrow> Inl e
                   | Inr vrs' \<Rightarrow>
                       (let model5 = dict_set model4 ''versions'' (JList (map JObj vrs'))
                        in Inr (snd (dict_pop model5 ''latest_versions''), vrs')))))"

section \<open>The export orchestrator\<close>

text \<open>The summary block \<^verbatim>\<open>info_attr\<close> of \<^verbatim>\<open>_export_model\<close>.\<close>

definition info_attr :: "Options \<Rightarrow> dict list \<Rightarrow> dict list \<Rightarrow> dict" where
  "info_attr opts vrs failed_versions =
     [(''num_target_stages'', JInt (int (length (stages opts)))),
      (''num_target_versions'', JInt (int (length (versions opts)))),
      (''num_src_versions'', JInt (int (length vrs))),
      (''num_dst_versions'', JInt (int (length vrs))),
      (''failed_versions'', JList (map JObj failed_versions)),
      (''export_latest_versions'', JBool (export_latest_versions opts)),
      (''export_permissions'', JBool (export_permissions opts))]"

text \<open>
  \<^verbatim>\<open>_adjust_model\<close> applied to a value fetched from the registry: anything but a
  dictionary has no \<^verbatim>\<open>get\<close>, and the first \<^verbatim>\<open>_adjust_timestamp\<close> raises
  \<^verbatim>\<open>AttributeError\<close>.
\<close>

definition adjust_model_value :: "'w env \<Rightarrow> json \<Rightarrow> dict list \<Rightarrow> exn + dict \<times> dict list" where
  "adjust_model_value env v vrs =
     (case v of
        JObj model \<Rightarrow> priv_adjust_model env model vrs
      | _ \<Rightarrow> Inl (AttributeError ''get''))"

definition lift_exn :: "exn + 'a \<Rightarrow> ('a, 's) comp" where
  "lift_exn r s = (r, s)"

text \<open>The module's \<^verbatim>\<open>__file__\<close>.\<close>

definition this_file :: string where
  "this_file = ''mlflow_export_import/model/export_model.py''"

text \<open>
  The two ways \<^verbatim>\<open>_export_model\<close> fetches and adjusts the registered model: with
  Databricks permissions, and plain.
\<close>

definition fetch_model_databricks ::
  "'w env \<Rightarrow> mlflow_client \<Rightarrow> string \<Rightarrow> dict list \<Rightarrow> (dict \<times> dict list, 'w st) comp"
where
  "fetch_model_databricks env client model_name vrs =
     bind (call (http_get env (tracking_uri client) ''databricks/registered-models/get''
                   [(''name'', JStr model_name)])) (\<lambda>model.
       (let (model2, model') = dict_pop model ''registered_model_databricks''
        in bind (lift_exn (adjust_model_value env model2 vrs)) (\<lambda>(model2', vrs').
             (case map_of model2' ''id'' of
                None \<Rightarrow> raise (KeyError ''id'')
              | Some mid \<Rightarrow>
                  bind (call (get_model_permissions env (tracking_uri client) mid))
                    (\<lambda>permissions.
                       return (dict_set model' ''registered_model''
                                 (JObj (dict_set model2' ''permissions'' permissions)),
                               vrs'))))))"

definition fetch_model_plain ::
  "'w env \<Rightarrow> mlflow_client \<Rightarrow> string \<Rightarrow> dict list \<Rightarrow> (dict \<times> dict list, 'w st) comp"
where
  "fetch_model_plain env client model_name vrs =
     bind (call (http_get env (tracking_uri client) ''registered-models/get''
                   [(''name'', JStr model_name)])) (\<lambda>model.
       (case map_of model ''registered_model'' of
          None \<Rightarrow> raise (KeyError ''registered_model'')
        | Some rm \<Rightarrow>
            bind (lift_exn (adjust_model_value env rm vrs)) (\<lambda>(rm', vrs').
              return (dict_set model ''registered_model'' (JObj rm'), vrs'))))"

text \<open>\<^verbatim>\<open>_export_model\<close>.\<close>

definition priv_export_model ::
  "'w env \<Rightarrow> mlflow_client \<Rightarrow> string \<Rightarrow> string \<Rightarrow> Options \<Rightarrow> (unit, 'w st) comp"
where
  "priv_export_model env client model_name output_dir opts =
     bind (call (list_model_versions env client model_name (export_latest_versions opts)))
       (\<lambda>ori_versions.
     (let msg = (if export_latest_versions opts then ''latest'' else ''all'')
      in
     bind (\<lambda>s. (Inr (), logger INFO
                   (JList [JStr ''Exporting model '', JStr model_name, JStr '': found '',
                           JInt (int (length ori_versions)), JStr msg, JStr '' versions'']) s))
       (\<lambda>_.
     bind (priv_export_versions env client ori_versions output_dir opts)
       (\<lambda>(vrs, failed_versions).
     bind (call (is_importing_into_databricks env)) (\<lambda>databricks.
     bind (if databricks \<and> export_permissions opts
           then fetch_model_databricks env client model_name vrs
           else fetch_model_plain env client model_name vrs) (\<lambda>(model, vrs').
     bind (call (write_export_file env output_dir ''model.json'' this_file model
                   (info_attr opts vrs' failed_versions))) (\<lambda>_.
       (\<lambda>s. (Inr (), logger INFO
                (JList [JStr ''Exported '', JInt (int (length vrs')), JStr ''/'',
                        JInt (int (length ori_versions)), JStr msg,
                        JStr '' versions for model '', JStr model_name]) s)))))))))"

text \<open>
  \<^verbatim>\<open>export_model\<close>. The client objects are made first: the given client or the default
  one, and the two HTTP clients for its tracking URI, which the collaborators receive as
  that URI; making them runs no collaborator and raises nothing. The precondition on the
  two filters is checked, and its exception raised, before the \<^verbatim>\<open>try\<close>; the handlers of
  the \<^verbatim>\<open>try\<close> turn every exception of \<^verbatim>\<open>_export_model\<close> into the result
  \<^verbatim>\<open>(False, model_name)\<close>.
\<close>

definition export_model ::
  "'w env \<Rightarrow> string \<Rightarrow> string \<Rightarrow> stages_arg \<Rightarrow> version_id list option \<Rightarrow> bool \<Rightarrow> bool \<Rightarrow> bool \<Rightarrow>
   bool \<Rightarrow> string list option \<Rightarrow> mlflow_client option \<Rightarrow> (bool \<times> string, 'w st) comp"
where
  "export_model env model_name output_dir stgs vers latest version_model permissions
     deleted_runs formats client_arg s =
     (let client = (case client_arg of None \<Rightarrow> default_client env | Some c \<Rightarrow> c);
          (stgs', s0) = priv_normalize_stages env stgs s;
          vers' = (case vers of None \<Rightarrow> [] | Some v \<Rightarrow> v)
      in if length stgs' > 0 \<and> length vers' > 0
         then (Inl (MlflowExportImportException
                      (JList [JStr ''Both stages '', JList (map JStr stgs'),
                              JStr '' and versions '', JList (map json_of_version vers'),
                              JStr '' cannot be set'']) 400), s0)
         else
           (let opts = \<lparr> stages = stgs', versions = vers', export_latest_versions = latest,
                         export_deleted_runs = deleted_runs,
                         export_version_model = version_model,
                         export_permissions = permissions, notebook_formats = formats \<rparr>
            in case priv_export_model env client model_name output_dir opts s0 of
                 (Inr _, s1) \<Rightarrow> (Inr (True, model_name), s1)
               | (Inl (RestException ejson), s1) \<Rightarrow>
                   (let err_msg = [(''model'', JStr model_name), (''RestException'', JObj ejson)]
                    in if dict_get ejson ''error_code'' = JStr ''RESOURCE_DOES_NOT_EXIST''
                       then (Inr (False, model_name),
                             logger ERROR
                               (JObj ((''message'', JStr ''Model does not exist'') # err_msg)) s1)
                       else (Inr (False, model_name),
                             print_exc (RestException ejson)
                               (logger ERROR
                                  (JObj ((''message'', JStr ''Model cannot be exported'')
                                         # err_msg)) s1)))
               | (Inl e, s1) \<Rightarrow>
                   (Inr (False, model_name),
                    print_exc e (s1\<lparr>logs := logs s1 @ [LogException model_name e]\<rparr>))))"

section \<open>The run copy orchestrator\<close>

text \<open>
  The copy works on a world with a file system: the paths that exist. The world may hold
  anything else besides.
\<close>

record filesystem =
  paths :: "string list"

definition path_exists :: "'a filesystem_scheme \<Rightarrow> string \<Rightarrow> bool" where
  "path_exists w p = (p \<in> set (paths w))"

text \<open>\<^verbatim>\<open>shutil.rmtree(d)\<close>: the directory and everything beneath it are gone.\<close>

definition rmtree :: "string \<Rightarrow> 'a filesystem_scheme \<Rightarrow> 'a filesystem_scheme" where
  "rmtree d w =
     w\<lparr>paths := filter (\<lambda>p. p \<noteq> d \<and> take (Suc (length d)) p \<noteq> d @ ''/'') (paths w)\<rparr>"

text \<open>
  \<^verbatim>\<open>with tempfile.TemporaryDirectory() as d: body\<close>. Creating the directory may fail, and
  then there is nothing to release. Once it is made, the context manager's exit runs
  whether the body returns or raises: it removes the tree and lets the body's result or
  exception through.
\<close>

definition with_TemporaryDirectory ::
  "'a filesystem_scheme env \<Rightarrow> (string \<Rightarrow> ('b, 'a filesystem_scheme) comp) \<Rightarrow>
   ('b, 'a filesystem_scheme) comp"
where
  "with_TemporaryDirectory env body w =
     (case mkdtemp env w of
        (Inl e, w1) \<Rightarrow> (Inl e, w1)
      | (Inr d, w1) \<Rightarrow> (case body d w1 of (r, w2) \<Rightarrow> (r, rmtree d w2)))"

text \<open>\<^verbatim>\<open>_copy\<close>.\<close>

definition priv_copy ::
  "'a filesystem_scheme env \<Rightarrow> string \<Rightarrow> string \<Rightarrow> mlflow_client \<Rightarrow> mlflow_client \<Rightarrow>
   (json, 'a filesystem_scheme) comp"
where
  "priv_copy env src_run_id dst_experiment_name src_client dst_client =
     with_TemporaryDirectory env (\<lambda>download_dir.
       bind (export_run env src_run_id download_dir None (Some [''SOURCE''])
               (Some src_client)) (\<lambda>_.
       bind (import_run env download_dir dst_experiment_name dst_client) (\<lambda>(dst_run, _).
         return dst_run)))"

text \<open>\<^verbatim>\<open>copy\<close>.\<close>

definition copy ::
  "'a filesystem_scheme env \<Rightarrow> string \<Rightarrow> string \<Rightarrow> string \<Rightarrow> string \<Rightarrow>
   (json, 'a filesystem_scheme) comp"
where
  "copy env src_run_id dst_experiment_name src_mlflow_uri dst_mlflow_uri =
     priv_copy env src_run_id dst_experiment_name
       (MlflowClient src_mlflow_uri src_mlflow_uri)
       (MlflowClient dst_mlflow_uri dst_mlflow_uri)"

section \<open>Notions used to state the properties\<close>

text \<open>
  A version is identified by model name, version identifier and run id. A success
  descriptor carries them under \<open>name\<close>, \<open>version\<close> and \<open>run_id\<close>, a failure record under
  \<open>model\<close>, \<open>version\<close> and \<open>run_id\<close>.
\<close>

definition version_key :: "model_version \<Rightarrow> json \<times> json \<times> json" where
  "version_key vr = (JStr (name vr), json_of_version (version vr), JStr (run_id vr))"

definition success_key :: "dict \<Rightarrow> json \<times> json \<times> json" where
  "success_key d = (dict_get d ''name'', dict_get d ''version'', dict_get d ''run_id'')"

definition failure_key :: "dict \<Rightarrow> json \<times> json \<times> json" where
  "failure_key f = (dict_get f ''model'', dict_get f ''version'', dict_get f ''run_id'')"

text \<open>
  The failure record the specification asks for, for a version whose export raised a
  \<^verbatim>\<open>RestException\<close> with payload \<open>ejson\<close>: the message that classifies the failure by the
  payload's error code (resource not found, or other), then model name, version, run id
  and the raw payload.
\<close>

definition failure_record :: "model_version \<Rightarrow> dict \<Rightarrow> dict" where
  "failure_record vr ejson =
     [(''message'',
       JStr (if dict_get ejson ''error_code'' = JStr ''RESOURCE_DOES_NOT_EXIST''
             then ''Version run probably does not exist''
             else ''Version cannot be exported'')),
      (''model'', JStr (name vr)),
      (''version'', json_of_version (version vr)),
      (''run_id'', JStr (run_id vr)),
      (''RestException'', JObj ejson)]"

definition is_RestException :: "exn \<Rightarrow> bool" where
  "is_RestException e = (case e of RestException ejson \<Rightarrow> True | _ \<Rightarrow> False)"

text \<open>
  The order in which the sort leaves two keys: \<open>a\<close> may stand before \<open>b\<close> when
  \<^verbatim>\<open>b < a\<close> is defined and false. On two integers that is \<open>a \<le> b\<close>, on two strings the
  lexicographic order.
\<close>

definition key_le :: "json \<Rightarrow> json \<Rightarrow> bool" where
  "key_le a b = (py_lt b a = Inr False)"

text \<open>
  Whether the Version Selector keeps a version, and the two kinds of identifier.
\<close>

definition selected :: "Options \<Rightarrow> model_version \<Rightarrow> bool" where
  "selected opts vr = (version_selector opts [vr] = [vr])"

fun is_int_version :: "version_id \<Rightarrow> bool" where
  "is_int_version (VInt i) = True"
| "is_int_version (VStr t) = False"

fun is_str_version :: "version_id \<Rightarrow> bool" where
  "is_str_version (VInt i) = False"
| "is_str_version (VStr t) = True"

text \<open>
  The fields \<^verbatim>\<open>_adjust_model\<close> writes, moves or removes; every other field of the model
  is outside its reach.
\<close>

definition derived_fields :: "string set" where
  "derived_fields = {''_creation_timestamp'', ''_last_updated_timestamp'', ''tags'',
                     ''versions'', ''latest_versions''}"

text \<open>
  The state in which the export of a version starts: the progress line of
  \<^verbatim>\<open>_export_version\<close> has been logged. And the state a caught \<^verbatim>\<open>RestException\<close> leaves:
  the failure record is logged as an error, with a stack trace unless the error code says
  that the resource does not exist.
\<close>

definition version_start :: "model_version \<Rightarrow> string \<Rightarrow> nat \<Rightarrow> nat \<Rightarrow> 'w st \<Rightarrow> 'w st" where
  "version_start vr output_dir j n s =
     logger INFO
       (JList [JStr ''Exporting model verson '', JInt (int j + 1), JStr ''/'', JInt (int n),
               JStr '': '',
               JObj [(''name'', JStr (name vr)), (''version'', json_of_version (version vr)),
                     (''stage'', JStr (current_stage vr))],
               JStr '' to '', JStr (os_path_join output_dir (run_id vr))]) s"

definition failure_logged :: "model_version \<Rightarrow> dict \<Rightarrow> 'w st \<Rightarrow> 'w st" where
  "failure_logged vr ejson s =
     (if dict_get ejson ''error_code'' = JStr ''RESOURCE_DOES_NOT_EXIST''
      then logger ERROR (JObj (failure_record vr ejson)) s
      else print_exc (RestException ejson) (logger ERROR (JObj (failure_record vr ejson)) s))"

section \<open>A concrete registry for examples\<close>

text \<open>
  The examples run the code against a small world: a set of paths that exist and the
  trace of the collaborators' calls. Run \<open>gone\<close> has been deleted on the server (the
  structured error \<^verbatim>\<open>RESOURCE_DOES_NOT_EXIST\<close>); exporting run \<open>broken\<close> fails with an
  error that is not a \<^verbatim>\<open>RestException\<close>; importing into experiment \<open>denied\<close> is refused.
\<close>

datatype event =
    ListModelVersions string bool
  | ExportRun string string
  | ImportRun string string
  | GetRun string
  | GetExperiment string
  | ExportVersionModel string
  | HttpGet string dict
  | GetModelPermissions json
  | WriteExportFile string string string dict dict
  | MkDTemp string

record demo_world = filesystem +
  trace :: "event list"

definition emit :: "event \<Rightarrow> demo_world \<Rightarrow> demo_world" where
  "emit ev w = w\<lparr>trace := trace w @ [ev]\<rparr>"

definition demo_export_run :: "string \<Rightarrow> string \<Rightarrow> (unit, demo_world) comp" where
  "demo_export_run rid opath w =
     (if rid = ''gone''
      then (Inl (RestException [(''error_code'', JStr ''RESOURCE_DOES_NOT_EXIST'')]),
            emit (ExportRun rid opath) w)
      else if rid = ''broken''
      then (Inl (OtherException ''OSError''), emit (ExportRun rid opath) w)
      else (Inr (), emit (ExportRun rid opath) (w\<lparr>paths := paths w @ [opath]\<rparr>)))"

definition demo_import_run :: "string \<Rightarrow> string \<Rightarrow> (json \<times> json, demo_world) comp" where
  "demo_import_run input_dir exp w =
     (if exp = ''denied''
      then (Inl (RestException [(''error_code'', JStr ''PERMISSION_DENIED'')]),
            emit (ImportRun input_dir exp) w)
      else (Inr (JObj [(''experiment'', JStr exp)], JNull), emit (ImportRun input_dir exp) w))"

definition demo_fmt_ts_millis :: "json \<Rightarrow> exn + json" where
  "demo_fmt_ts_millis j =
     (case j of
        JNull \<Rightarrow> Inr JNull
      | JInt i \<Rightarrow> Inr (JList [JStr ''seconds'', JInt (i div 1000)])
      | _ \<Rightarrow> Inl (TypeError ''unsupported operand''))"

definition demo_registered_model :: "string \<Rightarrow> dict" where
  "demo_registered_model m =
     [(''registered_model'',
       JObj [(''name'', JStr m), (''creation_timestamp'', JInt 5000),
             (''tags'', JList [JObj [(''key'', JStr ''k''), (''value'', JStr ''v'')]]),
             (''latest_versions'', JList []), (''description'', JStr ''demo'')])]"

definition demo_env :: "model_version list \<Rightarrow> demo_world env" where
  "demo_env registry =
     \<lparr> default_client = MlflowClient ''http://src'' ''http://src'',
       list_model_versions = (\<lambda>c m latest w. (Inr registry, emit (ListModelVersions m latest) w)),
       export_run = (\<lambda>rid opath deleted formats c. demo_export_run rid opath),
       import_run = (\<lambda>input_dir exp c. demo_import_run input_dir exp),
       get_run = (\<lambda>c rid w.
         (Inr \<lparr>artifact_uri = ''s3://bucket/'' @ rid, experiment_id = ''7''\<rparr>, emit (GetRun rid) w)),
       get_experiment = (\<lambda>eid w. (Inr (''exp-'' @ eid), emit (GetExperiment eid) w)),
       export_version_model_uri = (\<lambda>c vr dir w.
         (Inr (JStr (''models:/'' @ name vr)), emit (ExportVersionModel (name vr)) w)),
       is_importing_into_databricks = (\<lambda>w. (Inr False, w)),
       http_get = (\<lambda>uri resource params w.
         (Inr (demo_registered_model ''m''), emit (HttpGet resource params) w)),
       get_model_permissions = (\<lambda>uri mid w. (Inr JNull, emit (GetModelPermissions mid) w)),
       write_export_file = (\<lambda>dir file script model info w.
         (Inr (), emit (WriteExportFile dir file script model info) w)),
       fmt_ts_millis = demo_fmt_ts_millis,
       mkdtemp = (\<lambda>w. (Inr ''/tmp/tmp0'',
         emit (MkDTemp ''/tmp/tmp0'') (w\<lparr>paths := paths w @ [''/tmp/tmp0'']\<rparr>))),
       canonical_mapping = [(''none'', ''None''), (''staging'', ''Staging''),
                            (''production'', ''Production''), (''archived'', ''Archived'')],
       all_stages = [''None'', ''Staging'', ''Production'', ''Archived''] \<rparr>"

definition demo_state :: "demo_world st" where
  "demo_state = \<lparr> world = \<lparr> paths = [], trace = [] \<rparr>, logs = [] \<rparr>"

definition demo_client :: mlflow_client where
  "demo_client = MlflowClient ''http://src'' ''http://src''"

definition demo_version :: "version_id \<Rightarrow> string \<Rightarrow> string \<Rightarrow> model_version" where
  "demo_version v stage rid =
     \<lparr> name = ''m'', version = v, current_stage = stage, run_id = rid,
       properties = [(''creation_timestamp'', JInt 7000)] \<rparr>"

definition demo_opts :: Options where
  "demo_opts =
     \<lparr> stages = [], versions = [], export_latest_versions = False,
       export_deleted_runs = False, export_version_model = False,
       export_permissions = False, notebook_formats = None \<rparr>"

definition demo_world0 :: demo_world where
  "demo_world0 = \<lparr> paths = [''/data''], trace = [] \<rparr>"

section \<open>Properties of the stage normalizer\<close>

lemma lower_char_idem: "lower_char (lower_char c) = lower_char c"
  by (simp add: lower_char_def)

lemma lower_idem: "lower (lower t) = lower t"
  by (simp add: lower_def lower_char_idem)

lemma warn_stages_world: "world (warn_stages env ts s) = world s"
  by (induction ts arbitrary: s) simp_all

lemma warn_stages_logs:
  "logs (warn_stages env ts s) =
     logs s @ map (stage_warning env)
                (filter (\<lambda>t. t \<notin> set (map fst (canonical_mapping env))) ts)"
  by (induction ts arbitrary: s) simp_all

lemma normalize_stages_world: "world (snd (priv_normalize_stages env stgs s)) = world s"
  by (cases stgs) (simp_all add: priv_normalize_stages_def Let_def warn_stages_world)

text \<open>
  Claim C7. The stage normalizer returns the lower-cased tokens of its input: none for
  \<^verbatim>\<open>None\<close>, the empty string and the empty sequence, the pieces of a comma-joined
  string, the elements of a sequence. Every returned token is lower case. A token
  outside the canonical vocabulary is part of the result all the same; the only effect
  of such tokens is one warning each, in order, and the world is untouched. The function
  is total: it has no raising branch.
\<close>

theorem normalize_stages_spec:
  "fst (priv_normalize_stages env stgs s) = map lower (stage_tokens stgs)
   \<and> list_all (\<lambda>t. lower t = t) (fst (priv_normalize_stages env stgs s))
   \<and> world (snd (priv_normalize_stages env stgs s)) = world s
   \<and> logs (snd (priv_normalize_stages env stgs s)) =
       logs s @ map (stage_warning env)
                  (filter (\<lambda>t. t \<notin> set (map fst (canonical_mapping env)))
                     (map lower (stage_tokens stgs)))
   \<and> priv_normalize_stages env StagesNone s = ([], s)
   \<and> priv_normalize_stages env (StagesStr []) s = ([], s)
   \<and> priv_normalize_stages env (StagesList []) s = ([], s)"
proof -
  have toks: "fst (priv_normalize_stages env stgs s) = map lower (stage_tokens stgs)"
    by (cases stgs) (simp_all add: priv_normalize_stages_def stage_tokens_def Let_def)
  have low: "list_all (\<lambda>t. lower t = t) (map lower (stage_tokens stgs))"
    by (simp add: list_all_iff lower_idem)
  have w: "world (snd (priv_normalize_stages env stgs s)) = world s"
    by (cases stgs) (simp_all add: priv_normalize_stages_def Let_def warn_stages_world)
  have l: "logs (snd (priv_normalize_stages env stgs s)) =
       logs s @ map (stage_warning env)
                  (filter (\<lambda>t. t \<notin> set (map fst (canonical_mapping env)))
                     (map lower (stage_tokens stgs)))"
    by (cases stgs)
      (simp_all add: priv_normalize_stages_def stage_tokens_def Let_def warn_stages_logs)
  have e: "priv_normalize_stages env StagesNone s = ([], s)
     \<and> priv_normalize_stages env (StagesStr []) s = ([], s)
     \<and> priv_normalize_stages env (StagesList []) s = ([], s)"
    by (simp add: priv_normalize_stages_def)
  from toks low w l e show ?thesis by simp
qed

theorem normalize_stages_spec_witness:
  "fst (priv_normalize_stages (demo_env []) (StagesStr ''Production,QA'') demo_state)
     = [''production'', ''qa'']
   \<and> logs (snd (priv_normalize_stages (demo_env []) (StagesStr ''Production,QA'') demo_state))
     = [stage_warning (demo_env []) ''qa'']"
proof -
  have t: "map lower (stage_tokens (StagesStr ''Production,QA'')) = [''production'', ''qa'']"
    by (simp add: stage_tokens_def lower_def lower_char_def)
  have c: "canonical_mapping (demo_env []) =
      [(''none'', ''None''), (''staging'', ''Staging''),
       (''production'', ''Production''), (''archived'', ''Archived'')]"
    by (simp add: demo_env_def)
  have l: "logs demo_state = []"
    by (simp add: demo_state_def)
  show ?thesis
    using normalize_stages_spec [of "demo_env []" "StagesStr ''Production,QA''" demo_state]
    by (simp add: t c l)
qed

section \<open>Lemmas about dictionaries, the sort and the driver's loop\<close>

lemma map_of_dict_set: "map_of (dict_set d k v) = (map_of d)(k \<mapsto> v)"
  by (simp add: dict_set_def update_conv')

lemma dict_get_dict_set: "dict_get (dict_set d k v) k' = (if k' = k then v else dict_get d k')"
  by (simp add: dict_get_def map_of_dict_set)

lemma body_keys:
  assumes "export_version_body env client vr output_dir opath opts s = (Inr d, s')"
  shows "success_key d = version_key vr \<and> map_of d ''version'' = Some (json_of_version (version vr))"
  using assms
  by (auto simp: export_version_body_def bind_def return_def call_def Let_def success_key_def
      version_key_def dict_get_dict_set map_of_dict_set dict_of_model_version_def
      split: prod.splits sum.splits if_splits)

lemma pev_cases:
  assumes "priv_export_version env client vr output_dir outs fails j n opts s = (r, s')"
  shows "(\<exists>d. r = Inr (outs @ [d], fails) \<and> success_key d = version_key vr
              \<and> map_of d ''version'' = Some (json_of_version (version vr)))
       \<or> (\<exists>ej. r = Inr (outs, fails @ [failure_record vr ej]))
       \<or> (\<exists>e. r = Inl e \<and> \<not> is_RestException e)"
  using assms
  by (auto simp: priv_export_version_def Let_def failure_record_def version_err_msg_def
      is_RestException_def
      dest!: body_keys split: prod.splits sum.splits exn.splits if_splits)

lemma key_le_trans: "key_le a b \<Longrightarrow> key_le b c \<Longrightarrow> key_le a c"
  unfolding key_le_def by (cases a; cases b; cases c) auto

lemma py_lt_True_key_le: "py_lt a b = Inr True \<Longrightarrow> key_le a b"
  unfolding key_le_def by (cases a; cases b) auto

lemma py_insort_mset: "py_insort x ys = Inr zs \<Longrightarrow> mset zs = add_mset x (mset ys)"
  by (induction ys arbitrary: zs) (auto split: sum.splits bool.splits)

lemma py_insort_sorted:
  "py_insort x ys = Inr zs \<Longrightarrow> sorted_wrt key_le (map fst ys) \<Longrightarrow> sorted_wrt key_le (map fst zs)"
proof (induction ys arbitrary: zs)
  case Nil
  then show ?case by auto
next
  case (Cons y ys)
  show ?case
  proof (cases "py_lt (fst y) (fst x)")
    case (Inl e)
    with Cons.prems show ?thesis by simp
  next
    case (Inr b)
    show ?thesis
    proof (cases b)
      case True
      with Inr Cons.prems obtain zs' where z: "py_insort x ys = Inr zs'" "zs = y # zs'"
        by (auto split: sum.splits)
      have s: "sorted_wrt key_le (map fst zs')"
        using Cons.IH [OF z(1)] Cons.prems(2) by simp
      have "set zs' = insert x (set ys)"
        using py_insort_mset [OF z(1)] by (metis set_mset_add_mset_insert set_mset_mset)
      moreover have "key_le (fst y) (fst x)"
        using Inr True by (simp add: py_lt_True_key_le)
      ultimately show ?thesis
        using s z(2) Cons.prems(2) by auto
    next
      case False
      with Inr Cons.prems have z: "zs = x # y # ys" by simp
      have xy: "key_le (fst x) (fst y)"
        using Inr False by (simp add: key_le_def)
      have "\<forall>k \<in> set (map fst ys). key_le (fst x) k"
        using Cons.prems(2) xy key_le_trans by auto
      then show ?thesis
        using z xy Cons.prems(2) by auto
    qed
  qed
qed

lemma py_sort_pairs_mset: "py_sort_pairs xs = Inr ys \<Longrightarrow> mset ys = mset xs"
  by (induction xs arbitrary: ys) (auto split: sum.splits dest: py_insort_mset)

lemma py_sort_pairs_sorted: "py_sort_pairs xs = Inr ys \<Longrightarrow> sorted_wrt key_le (map fst ys)"
  by (induction xs arbitrary: ys) (auto split: sum.splits dest: py_insort_sorted)

lemma sort_keys_snd: "sort_keys k xs = Inr kxs \<Longrightarrow> map snd kxs = xs"
  by (induction xs arbitrary: kxs) (auto split: option.splits sum.splits)

lemma sort_keys_fst:
  "sort_keys k xs = Inr kxs \<Longrightarrow> \<forall>p \<in> set kxs. map_of (snd p) k = Some (fst p)"
  by (induction xs arbitrary: kxs) (auto split: option.splits sum.splits)

lemma py_sort_by_mset: "py_sort_by k xs = Inr ys \<Longrightarrow> mset ys = mset xs"
  unfolding py_sort_by_def
  by (auto split: sum.splits dest!: py_sort_pairs_mset sort_keys_snd)

lemma py_sort_by_sorted:
  assumes "py_sort_by k xs = Inr ys"
  shows "sorted_wrt key_le (map (\<lambda>d. dict_get d k) ys)"
proof -
  from assms obtain kxs ps where a: "sort_keys k xs = Inr kxs" "py_sort_pairs kxs = Inr ps"
     "ys = map snd ps"
    unfolding py_sort_by_def by (auto split: sum.splits)
  have "set ps = set kxs"
    using py_sort_pairs_mset [OF a(2)] by (metis set_mset_mset)
  then have "\<forall>p \<in> set ps. dict_get (snd p) k = fst p"
    using sort_keys_fst [OF a(1)] by (auto simp: dict_get_def)
  then have "map (\<lambda>d. dict_get d k) ys = map fst ps"
    using a(3) by simp
  then show ?thesis
    using py_sort_pairs_sorted [OF a(2)] by simp
qed

lemma selected_iff:
  "selected opts vr \<longleftrightarrow>
     (stages opts = [] \<or> lower (current_stage vr) \<in> set (stages opts))
     \<and> (versions opts = [] \<or> version vr \<in> set (versions opts))"
  by (auto simp: selected_def version_selector_def Let_def)

lemma version_selector_filter: "version_selector opts vrs = filter (selected opts) vrs"
  by (auto simp: selected_iff version_selector_def Let_def intro: filter_cong)

lemma loop_is_export_each:
  "export_versions_loop env client vrs j n output_dir opts outs fails s =
   export_each env client (filter (\<lambda>p. selected opts (snd p)) (List.enumerate j vrs))
     n output_dir opts outs fails s"
proof (induction vrs arbitrary: j outs fails s)
  case Nil
  show ?case by simp
next
  case (Cons vr rest)
  show ?case
  proof (cases "selected opts vr")
    case True
    then show ?thesis
      using Cons.IH by (auto simp: selected_iff split: prod.splits sum.splits)
  next
    case False
    then show ?thesis
      using Cons.IH by (auto simp: selected_iff)
  qed
qed

lemma map_snd_filter_enumerate:
  "map snd (filter (\<lambda>p. P (snd p)) (List.enumerate j vrs)) = filter P vrs"
  by (induction vrs arbitrary: j) auto

lemma failure_key_record: "failure_key (failure_record vr ej) = version_key vr"
  by (simp add: failure_key_def failure_record_def version_key_def dict_get_def)

lemma export_each_returns:
  assumes "export_each env client sel n output_dir opts outs fails s = (Inr (outs', fails'), s')"
  shows "mset (map success_key outs') + mset (map failure_key fails') =
           mset (map success_key outs) + mset (map failure_key fails)
           + mset (map (\<lambda>p. version_key (snd p)) sel)
       \<and> length outs' + length fails' = length outs + length fails + length sel
       \<and> (\<forall>f \<in> set fails'. f \<in> set fails \<or>
             (\<exists>vr ej. vr \<in> snd ` set sel \<and> f = failure_record vr ej))
       \<and> (\<forall>d \<in> set outs'. d \<in> set outs \<or>
             (\<exists>vr. vr \<in> snd ` set sel \<and> success_key d = version_key vr
                  \<and> map_of d ''version'' = Some (json_of_version (version vr))))"
  using assms
proof (induction sel arbitrary: outs fails s)
  case Nil
  then show ?case by simp
next
  case (Cons p rest)
  obtain j vr where p: "p = (j, vr)" by (cases p)
  obtain r s1 where r: "priv_export_version env client vr output_dir outs fails j n opts s = (r, s1)"
    by (cases "priv_export_version env client vr output_dir outs fails j n opts s")
  from pev_cases [OF r] consider
      (ok) d where "r = Inr (outs @ [d], fails)" "success_key d = version_key vr"
        "map_of d ''version'' = Some (json_of_version (version vr))"
    | (failed) ej where "r = Inr (outs, fails @ [failure_record vr ej])"
    | (raised) e where "r = Inl e"
    by blast
  then show ?case
  proof cases
    case ok
    with Cons.prems p r have
      "export_each env client rest n output_dir opts (outs @ [d]) fails s1 = (Inr (outs', fails'), s')"
      by simp
    from Cons.IH [OF this] have
      m: "mset (map success_key outs') + mset (map failure_key fails') =
           mset (map success_key (outs @ [d])) + mset (map failure_key fails)
           + mset (map (\<lambda>p. version_key (snd p)) rest)"
      and l: "length outs' + length fails' = length (outs @ [d]) + length fails + length rest"
      and f: "\<forall>f \<in> set fails'. f \<in> set fails \<or>
             (\<exists>vr ej. vr \<in> snd ` set rest \<and> f = failure_record vr ej)"
      and o: "\<forall>d' \<in> set outs'. d' \<in> set (outs @ [d]) \<or>
             (\<exists>vr. vr \<in> snd ` set rest \<and> success_key d' = version_key vr
                  \<and> map_of d' ''version'' = Some (json_of_version (version vr)))"
      by blast+
    have 1: "mset (map success_key outs') + mset (map failure_key fails') =
           mset (map success_key outs) + mset (map failure_key fails)
           + mset (map (\<lambda>p. version_key (snd p)) (p # rest))"
      using m ok(2) p by simp
    have 2: "length outs' + length fails' = length outs + length fails + length (p # rest)"
      using l by simp
    have 3: "\<forall>f \<in> set fails'. f \<in> set fails \<or>
             (\<exists>vr ej. vr \<in> snd ` set (p # rest) \<and> f = failure_record vr ej)"
      using f by auto
    have 4: "\<forall>d' \<in> set outs'. d' \<in> set outs \<or>
             (\<exists>vr. vr \<in> snd ` set (p # rest) \<and> success_key d' = version_key vr
                  \<and> map_of d' ''version'' = Some (json_of_version (version vr)))"
    proof
      fix d' assume "d' \<in> set outs'"
      with o consider "d' \<in> set outs" | "d' = d"
        | "\<exists>vr. vr \<in> snd ` set rest \<and> success_key d' = version_key vr
                  \<and> map_of d' ''version'' = Some (json_of_version (version vr))"
        by auto
      then show "d' \<in> set outs \<or>
             (\<exists>vr. vr \<in> snd ` set (p # rest) \<and> success_key d' = version_key vr
                  \<and> map_of d' ''version'' = Some (json_of_version (version vr)))"
      proof cases
        case 1 then show ?thesis by simp
      next
        case 2
        have "vr \<in> snd ` set (p # rest)" using p by simp
        with 2 ok(2,3) show ?thesis by blast
      next
        case 3 then show ?thesis by auto
      qed
    qed
    from 1 2 3 4 show ?thesis by blast
  next
    case failed
    with Cons.prems p r have
      "export_each env client rest n output_dir opts outs (fails @ [failure_record vr ej]) s1
         = (Inr (outs', fails'), s')"
      by simp
    from Cons.IH [OF this] have
      m: "mset (map success_key outs') + mset (map failure_key fails') =
           mset (map success_key outs) + mset (map failure_key (fails @ [failure_record vr ej]))
           + mset (map (\<lambda>p. version_key (snd p)) rest)"
      and l: "length outs' + length fails' =
           length outs + length (fails @ [failure_record vr ej]) + length rest"
      and f: "\<forall>f \<in> set fails'. f \<in> set (fails @ [failure_record vr ej]) \<or>
             (\<exists>vr ej. vr \<in> snd ` set rest \<and> f = failure_record vr ej)"
      and o: "\<forall>d' \<in> set outs'. d' \<in> set outs \<or>
             (\<exists>vr. vr \<in> snd ` set rest \<and> success_key d' = version_key vr
                  \<and> map_of d' ''version'' = Some (json_of_version (version vr)))"
      by blast+
    have 1: "mset (map success_key outs') + mset (map failure_key fails') =
           mset (map success_key outs) + mset (map failure_key fails)
           + mset (map (\<lambda>p. version_key (snd p)) (p # rest))"
      using m p by (simp add: failure_key_record)
    have 2: "length outs' + length fails' = length outs + length fails + length (p # rest)"
      using l by simp
    have 3: "\<forall>f \<in> set fails'. f \<in> set fails \<or>
             (\<exists>vr ej. vr \<in> snd ` set (p # rest) \<and> f = failure_record vr ej)"
    proof
      fix f' assume "f' \<in> set fails'"
      with f consider "f' \<in> set fails" | "f' = failure_record vr ej"
        | "\<exists>vr ej. vr \<in> snd ` set rest \<and> f' = failure_record vr ej"
        by auto
      then show "f' \<in> set fails \<or>
             (\<exists>vr ej. vr \<in> snd ` set (p # rest) \<and> f' = failure_record vr ej)"
      proof cases
        case 1 then show ?thesis by simp
      next
        case 2
        have "vr \<in> snd ` set (p # rest)" using p by simp
        with 2 show ?thesis by blast
      next
        case 3 then show ?thesis by auto
      qed
    qed
    have 4: "\<forall>d' \<in> set outs'. d' \<in> set outs \<or>
             (\<exists>vr. vr \<in> snd ` set (p # rest) \<and> success_key d' = version_key vr
                  \<and> map_of d' ''version'' = Some (json_of_version (version vr)))"
      using o by auto
    from 1 2 3 4 show ?thesis by blast
  next
    case raised
    with Cons.prems p r show ?thesis by simp
  qed
qed

lemma export_each_raises:
  "export_each env client sel n output_dir opts outs fails s = (Inl e, s') \<Longrightarrow>
     \<not> is_RestException e"
proof (induction sel arbitrary: outs fails s)
  case Nil
  then show ?case by simp
next
  case (Cons p rest)
  obtain j vr where p: "p = (j, vr)" by (cases p)
  obtain r s1 where r: "priv_export_version env client vr output_dir outs fails j n opts s = (r, s1)"
    by (cases "priv_export_version env client vr output_dir outs fails j n opts s")
  show ?case
  proof (cases r)
    case (Inl e')
    with Cons.prems p r have "e' = e" by simp
    with pev_cases [OF r] Inl show ?thesis by auto
  next
    case (Inr lists)
    obtain o1 f1 where "lists = (o1, f1)" by (cases lists)
    with Inr Cons.prems p r have
      "export_each env client rest n output_dir opts o1 f1 s1 = (Inl e, s')" by simp
    then show ?thesis by (rule Cons.IH)
  qed
qed

lemma pev_raise_from_body:
  assumes "priv_export_version env client vr output_dir outs fails j n opts s = (Inl e, s')"
  shows "\<exists>s0. export_version_body env client vr output_dir (os_path_join output_dir (run_id vr))
                 opts s0 = (Inl e, s')"
  using assms
  by (auto simp: priv_export_version_def Let_def split: prod.splits sum.splits exn.splits if_splits)

lemma export_each_total:
  assumes "\<And>vr s e s'. vr \<in> snd ` set sel \<Longrightarrow>
             export_version_body env client vr output_dir (os_path_join output_dir (run_id vr))
               opts s = (Inl e, s') \<Longrightarrow> is_RestException e"
  shows "\<exists>outs' fails' s'.
           export_each env client sel n output_dir opts outs fails s = (Inr (outs', fails'), s')"
  using assms
proof (induction sel arbitrary: outs fails s)
  case Nil
  show ?case by simp
next
  case (Cons p rest)
  obtain j vr where p: "p = (j, vr)" by (cases p)
  obtain r s1 where r: "priv_export_version env client vr output_dir outs fails j n opts s = (r, s1)"
    by (cases "priv_export_version env client vr output_dir outs fails j n opts s")
  have rest: "\<exists>outs' fails' s'.
           export_each env client rest n output_dir opts o1 f1 s1 = (Inr (outs', fails'), s')"
    for o1 f1
  proof (rule Cons.IH)
    fix vr' s e s'
    assume "vr' \<in> snd ` set rest"
      and b: "export_version_body env client vr' output_dir
                (os_path_join output_dir (run_id vr')) opts s = (Inl e, s')"
    then have "vr' \<in> snd ` set (p # rest)" by auto
    then show "is_RestException e" using b by (rule Cons.prems)
  qed
  show ?case
  proof (cases r)
    case (Inl e)
    from pev_raise_from_body r Inl obtain s0 where
      "export_version_body env client vr output_dir (os_path_join output_dir (run_id vr))
         opts s0 = (Inl e, s1)"
      by blast
    moreover have "vr \<in> snd ` set (p # rest)" using p by simp
    ultimately have "is_RestException e" by (rule Cons.prems [rotated])
    with pev_cases [OF r] Inl show ?thesis by auto
  next
    case (Inr lists)
    obtain o1 f1 where "lists = (o1, f1)" by (cases lists)
    with Inr r p rest [of o1 f1] show ?thesis by simp
  qed
qed

lemma sort_keys_total:
  "\<forall>d \<in> set xs. map_of d k \<noteq> None \<Longrightarrow> \<exists>kxs. sort_keys k xs = Inr kxs"
  by (induction xs) auto

lemma py_insort_total_int:
  "\<forall>p \<in> set (x # ys). \<exists>i. fst p = JInt i \<Longrightarrow> \<exists>zs. py_insort x ys = Inr zs"
  by (induction ys) (auto split: bool.splits)

lemma py_insort_total_str:
  "\<forall>p \<in> set (x # ys). \<exists>t. fst p = JStr t \<Longrightarrow> \<exists>zs. py_insort x ys = Inr zs"
  by (induction ys) (auto split: bool.splits)

lemma py_sort_pairs_total_int:
  "\<forall>p \<in> set xs. \<exists>i. fst p = JInt i \<Longrightarrow> \<exists>ys. py_sort_pairs xs = Inr ys"
proof (induction xs)
  case Nil
  show ?case by simp
next
  case (Cons x xs)
  then obtain ys where ys: "py_sort_pairs xs = Inr ys" by auto
  have "set ys = set xs" using py_sort_pairs_mset [OF ys] by (metis set_mset_mset)
  with Cons.prems have "\<forall>p \<in> set (x # ys). \<exists>i. fst p = JInt i" by simp
  from py_insort_total_int [OF this] ys show ?case by simp
qed

lemma py_sort_pairs_total_str:
  "\<forall>p \<in> set xs. \<exists>t. fst p = JStr t \<Longrightarrow> \<exists>ys. py_sort_pairs xs = Inr ys"
proof (induction xs)
  case Nil
  show ?case by simp
next
  case (Cons x xs)
  then obtain ys where ys: "py_sort_pairs xs = Inr ys" by auto
  have "set ys = set xs" using py_sort_pairs_mset [OF ys] by (metis set_mset_mset)
  with Cons.prems have "\<forall>p \<in> set (x # ys). \<exists>t. fst p = JStr t" by simp
  from py_insort_total_str [OF this] ys show ?case by simp
qed

lemma py_sort_by_total:
  assumes "(\<forall>d \<in> set xs. \<exists>i. map_of d k = Some (JInt i))
         \<or> (\<forall>d \<in> set xs. \<exists>t. map_of d k = Some (JStr t))"
  shows "\<exists>ys. py_sort_by k xs = Inr ys"
proof -
  from assms have "\<forall>d \<in> set xs. map_of d k \<noteq> None" by auto
  from sort_keys_total [OF this] obtain kxs where kxs: "sort_keys k xs = Inr kxs" by blast
  have m: "\<forall>p \<in> set kxs. snd p \<in> set xs \<and> map_of (snd p) k = Some (fst p)"
    using sort_keys_fst [OF kxs] sort_keys_snd [OF kxs] by (auto simp: image_iff) force
  from assms have "\<exists>ys. py_sort_pairs kxs = Inr ys"
  proof
    assume "\<forall>d \<in> set xs. \<exists>i. map_of d k = Some (JInt i)"
    with m have "\<forall>p \<in> set kxs. \<exists>i. fst p = JInt i" by fastforce
    then show ?thesis by (rule py_sort_pairs_total_int)
  next
    assume "\<forall>d \<in> set xs. \<exists>t. map_of d k = Some (JStr t)"
    with m have "\<forall>p \<in> set kxs. \<exists>t. fst p = JStr t" by fastforce
    then show ?thesis by (rule py_sort_pairs_total_str)
  qed
  with kxs show ?thesis by (auto simp: py_sort_by_def)
qed

lemma export_versions_returns:
  assumes "priv_export_versions env client vrs output_dir opts s = (Inr (outs, fails), s')"
  shows "\<exists>outs0. export_versions_loop env client vrs 0 (length vrs) output_dir opts [] [] s
                   = (Inr (outs0, fails), s')
               \<and> py_sort_by ''version'' outs0 = Inr outs"
  using assms
  by (auto simp: priv_export_versions_def bind_def return_def raise_def
      split: prod.splits sum.splits)

lemma export_versions_raises:
  assumes "priv_export_versions env client vrs output_dir opts s = (Inl e, s')"
  shows "\<not> is_RestException e"
proof -
  from assms consider
      "export_versions_loop env client vrs 0 (length vrs) output_dir opts [] [] s = (Inl e, s')"
    | outs0 where "py_sort_by ''version'' outs0 = Inl e"
    by (auto simp: priv_export_versions_def bind_def return_def raise_def
      split: prod.splits sum.splits)
  then show ?thesis
  proof cases
    case 1
    then show ?thesis
      unfolding loop_is_export_each by (rule export_each_raises)
  next
    case 2
    have k: "sort_keys k xs = Inl e \<Longrightarrow> \<not> is_RestException e" for k xs
      by (induction xs) (auto simp: is_RestException_def split: option.splits sum.splits)
    have l: "py_lt a b = Inl e \<Longrightarrow> \<not> is_RestException e" for a b
      by (cases a; cases b) (auto simp: is_RestException_def)
    have i: "py_insort x ys = Inl e \<Longrightarrow> \<not> is_RestException e" for x ys
      by (induction ys) (auto split: sum.splits bool.splits dest: l)
    have p: "py_sort_pairs xs = Inl e \<Longrightarrow> \<not> is_RestException e" for xs
      by (induction xs) (auto split: sum.splits dest: i)
    from 2 show ?thesis
      by (auto simp: py_sort_by_def split: sum.splits dest: k p)
  qed
qed

lemma pev_rest:
  assumes "export_version_body env client vr output_dir (os_path_join output_dir (run_id vr)) opts
             (version_start vr output_dir j n s) = (Inl (RestException ej), s1)"
  shows "priv_export_version env client vr output_dir outs fails j n opts s
           = (Inr (outs, fails @ [failure_record vr ej]), failure_logged vr ej s1)"
  using assms
  by (simp add: priv_export_version_def version_start_def failure_logged_def failure_record_def
      version_err_msg_def Let_def)

lemma pev_ok:
  assumes "export_version_body env client vr output_dir (os_path_join output_dir (run_id vr)) opts
             (version_start vr output_dir j n s) = (Inr d, s1)"
  shows "priv_export_version env client vr output_dir outs fails j n opts s
           = (Inr (outs @ [d], fails), s1)"
  using assms
  by (simp add: priv_export_version_def version_start_def Let_def)

lemma pev_other:
  assumes "export_version_body env client vr output_dir (os_path_join output_dir (run_id vr)) opts
             (version_start vr output_dir j n s) = (Inl e, s1)"
    and "\<not> is_RestException e"
  shows "priv_export_version env client vr output_dir outs fails j n opts s = (Inl e, s1)"
  using assms
  by (cases e) (simp_all add: priv_export_version_def version_start_def Let_def
      is_RestException_def)

lemma body_export_run_raises:
  assumes "export_run env (run_id vr) opath (Some (export_deleted_runs opts))
             (notebook_formats opts) None (world s) = (Inl e, w')"
  shows "export_version_body env client vr output_dir opath opts s = (Inl e, s\<lparr>world := w'\<rparr>)"
  using assms by (simp add: export_version_body_def bind_def call_def)

lemma export_each_outcomes:
  fixes failure :: "model_version \<Rightarrow> dict option"
  assumes fail: "\<And>vr ej s. vr \<in> snd ` set sel \<Longrightarrow> failure vr = Some ej \<Longrightarrow>
        fst (export_version_body env client vr output_dir (os_path_join output_dir (run_id vr))
               opts s) = Inl (RestException ej)"
    and ok: "\<And>vr s. vr \<in> snd ` set sel \<Longrightarrow> failure vr = None \<Longrightarrow>
        \<exists>d. fst (export_version_body env client vr output_dir
                    (os_path_join output_dir (run_id vr)) opts s) = Inr d"
  shows "\<exists>ds s'.
           export_each env client sel n output_dir opts outs fails s
             = (Inr (outs @ ds,
                     fails @ List.map_filter (\<lambda>vr. map_option (failure_record vr) (failure vr))
                               (map snd sel)), s')
         \<and> map success_key ds = map version_key (filter (\<lambda>vr. failure vr = None) (map snd sel))
         \<and> (\<forall>d \<in> set ds. \<exists>vr \<in> snd ` set sel.
               map_of d ''version'' = Some (json_of_version (version vr)))"
  using fail ok
proof (induction sel arbitrary: outs fails s)
  case Nil
  show ?case by (simp add: List.map_filter_simps)
next
  case (Cons p rest)
  obtain j vr where p: "p = (j, vr)" by (cases p)
  have mem: "vr \<in> snd ` set (p # rest)" using p by simp
  have IH: "\<exists>ds s'.
           export_each env client rest n output_dir opts outs1 fails1 s2
             = (Inr (outs1 @ ds,
                     fails1 @ List.map_filter (\<lambda>vr. map_option (failure_record vr) (failure vr))
                               (map snd rest)), s')
         \<and> map success_key ds = map version_key (filter (\<lambda>vr. failure vr = None) (map snd rest))
         \<and> (\<forall>d \<in> set ds. \<exists>vr \<in> snd ` set rest.
               map_of d ''version'' = Some (json_of_version (version vr)))"
    for outs1 fails1 s2
  proof (rule Cons.IH)
    fix vr' ej s
    assume "vr' \<in> snd ` set rest" and f: "failure vr' = Some ej"
    then have "vr' \<in> snd ` set (p # rest)" by auto
    then show "fst (export_version_body env client vr' output_dir
                      (os_path_join output_dir (run_id vr')) opts s) = Inl (RestException ej)"
      using f by (rule Cons.prems(1))
  next
    fix vr' s
    assume "vr' \<in> snd ` set rest" and f: "failure vr' = None"
    then have "vr' \<in> snd ` set (p # rest)" by auto
    then show "\<exists>d. fst (export_version_body env client vr' output_dir
                      (os_path_join output_dir (run_id vr')) opts s) = Inr d"
      using f by (rule Cons.prems(2))
  qed
  obtain r s1 where b: "export_version_body env client vr output_dir
            (os_path_join output_dir (run_id vr)) opts (version_start vr output_dir j n s) = (r, s1)"
    by (cases "export_version_body env client vr output_dir
            (os_path_join output_dir (run_id vr)) opts (version_start vr output_dir j n s)")
  show ?case
  proof (cases "failure vr")
    case (Some ej)
    from Cons.prems(1) [OF mem Some, of "version_start vr output_dir j n s"] b
    have "r = Inl (RestException ej)" by simp
    with b have step: "priv_export_version env client vr output_dir outs fails j n opts s
           = (Inr (outs, fails @ [failure_record vr ej]), failure_logged vr ej s1)"
      by (simp add: pev_rest)
    from IH [of outs "fails @ [failure_record vr ej]" "failure_logged vr ej s1"]
    obtain ds s' where
      e: "export_each env client rest n output_dir opts outs (fails @ [failure_record vr ej])
            (failure_logged vr ej s1)
             = (Inr (outs @ ds,
                     (fails @ [failure_record vr ej])
                     @ List.map_filter (\<lambda>vr. map_option (failure_record vr) (failure vr))
                               (map snd rest)), s')"
      and k: "map success_key ds
                = map version_key (filter (\<lambda>vr. failure vr = None) (map snd rest))"
      and v: "\<forall>d \<in> set ds. \<exists>vr \<in> snd ` set rest.
               map_of d ''version'' = Some (json_of_version (version vr))"
      by (elim exE conjE)
    have 1: "export_each env client (p # rest) n output_dir opts outs fails s
             = (Inr (outs @ ds,
                     fails @ List.map_filter (\<lambda>vr. map_option (failure_record vr) (failure vr))
                               (map snd (p # rest))), s')"
      using step e p Some by (simp add: List.map_filter_simps)
    have 2: "map success_key ds
               = map version_key (filter (\<lambda>vr. failure vr = None) (map snd (p # rest)))"
      using k p Some by simp
    have 3: "\<forall>d \<in> set ds. \<exists>vr \<in> snd ` set (p # rest).
               map_of d ''version'' = Some (json_of_version (version vr))"
      using v by auto
    show ?thesis by (intro exI conjI) (rule 1 2 3)+
  next
    case None
    from Cons.prems(2) [OF mem None, of "version_start vr output_dir j n s"] b
    obtain d where r: "r = Inr d" by auto
    with b have step: "priv_export_version env client vr output_dir outs fails j n opts s
           = (Inr (outs @ [d], fails), s1)"
      by (simp add: pev_ok)
    from b r have "export_version_body env client vr output_dir
            (os_path_join output_dir (run_id vr)) opts (version_start vr output_dir j n s) = (Inr d, s1)"
      by simp
    from body_keys [OF this] have kd: "success_key d = version_key vr"
      "map_of d ''version'' = Some (json_of_version (version vr))"
      by simp_all
    from IH [of "outs @ [d]" fails s1]
    obtain ds s' where
      e: "export_each env client rest n output_dir opts (outs @ [d]) fails s1
             = (Inr ((outs @ [d]) @ ds,
                     fails @ List.map_filter (\<lambda>vr. map_option (failure_record vr) (failure vr))
                               (map snd rest)), s')"
      and k: "map success_key ds
                = map version_key (filter (\<lambda>vr. failure vr = None) (map snd rest))"
      and v: "\<forall>d \<in> set ds. \<exists>vr \<in> snd ` set rest.
               map_of d ''version'' = Some (json_of_version (version vr))"
      by (elim exE conjE)
    have 1: "export_each env client (p # rest) n output_dir opts outs fails s
             = (Inr (outs @ (d # ds),
                     fails @ List.map_filter (\<lambda>vr. map_option (failure_record vr) (failure vr))
                               (map snd (p # rest))), s')"
      using step e p None by (simp add: List.map_filter_simps)
    have 2: "map success_key (d # ds)
               = map version_key (filter (\<lambda>vr. failure vr = None) (map snd (p # rest)))"
      using k kd(1) p None by simp
    have 3: "\<forall>d' \<in> set (d # ds). \<exists>vr \<in> snd ` set (p # rest).
               map_of d' ''version'' = Some (json_of_version (version vr))"
      using v kd(2) mem by auto
    show ?thesis by (intro exI conjI) (rule 1 2 3)+
  qed
qed

section \<open>Properties of the version export driver\<close>

lemmas demo_simps = demo_env_def demo_state_def demo_client_def demo_version_def demo_opts_def
  demo_export_run_def demo_import_run_def emit_def demo_fmt_ts_millis_def demo_registered_model_def

lemmas prog_simps = priv_export_versions_def priv_export_version_def export_version_body_def
  bind_def return_def raise_def call_def logger_def print_exc_def os_path_join_def Let_def
  dict_of_model_version_def dict_set_def dict_get_def py_sort_by_def version_err_msg_def

text \<open>
  Claim C5. The driver's loop runs the per-version export on exactly the versions the
  Version Selector keeps, in listing order and with their positions in the listing. The
  selector keeps a version when it passes every filter that is set. With both filters
  empty it returns the input list unchanged; with only the stage filter set it keeps
  exactly the versions whose lower-cased stage is a member of it; with only the version
  filter set it keeps exactly the versions whose identifier is a member of it. (The
  export refuses a call that sets both filters.)
\<close>

theorem version_selection:
  "export_versions_loop env client vrs 0 n output_dir opts outs fails s =
     export_each env client (filter (\<lambda>p. selected opts (snd p)) (List.enumerate 0 vrs))
       n output_dir opts outs fails s
   \<and> map snd (filter (\<lambda>p. selected opts (snd p)) (List.enumerate 0 vrs))
       = version_selector opts vrs
   \<and> version_selector opts vrs =
       filter (\<lambda>vr. (stages opts = [] \<or> lower (current_stage vr) \<in> set (stages opts))
                   \<and> (versions opts = [] \<or> version vr \<in> set (versions opts))) vrs
   \<and> (stages opts = [] \<and> versions opts = [] \<longrightarrow> version_selector opts vrs = vrs)
   \<and> (stages opts \<noteq> [] \<and> versions opts = [] \<longrightarrow>
        version_selector opts vrs =
          filter (\<lambda>vr. lower (current_stage vr) \<in> set (stages opts)) vrs)
   \<and> (stages opts = [] \<and> versions opts \<noteq> [] \<longrightarrow>
        version_selector opts vrs = filter (\<lambda>vr. version vr \<in> set (versions opts)) vrs)"
proof -
  have 1: "export_versions_loop env client vrs 0 n output_dir opts outs fails s =
     export_each env client (filter (\<lambda>p. selected opts (snd p)) (List.enumerate 0 vrs))
       n output_dir opts outs fails s"
    by (rule loop_is_export_each)
  have 2: "map snd (filter (\<lambda>p. selected opts (snd p)) (List.enumerate 0 vrs))
       = version_selector opts vrs"
    by (simp add: map_snd_filter_enumerate version_selector_filter)
  have 3: "version_selector opts vrs =
       filter (\<lambda>vr. (stages opts = [] \<or> lower (current_stage vr) \<in> set (stages opts))
                   \<and> (versions opts = [] \<or> version vr \<in> set (versions opts))) vrs"
    unfolding version_selector_filter by (rule filter_cong) (simp_all add: selected_iff)
  have 4: "stages opts = [] \<and> versions opts = [] \<longrightarrow> version_selector opts vrs = vrs"
    by (simp add: version_selector_def)
  have 5: "stages opts \<noteq> [] \<and> versions opts = [] \<longrightarrow>
        version_selector opts vrs =
          filter (\<lambda>vr. lower (current_stage vr) \<in> set (stages opts)) vrs"
    by (simp add: version_selector_def)
  have 6: "stages opts = [] \<and> versions opts \<noteq> [] \<longrightarrow>
        version_selector opts vrs = filter (\<lambda>vr. version vr \<in> set (versions opts)) vrs"
    by (simp add: version_selector_def)
  from 1 2 3 4 5 6 show ?thesis by blast
qed

text \<open>
  The specification's scenario: versions 3, 1 and 2 in stages Production, Archived and
  Staging, and the stage filter \<open>production\<close>, select version 3 alone.
\<close>

theorem version_selection_witness:
  "stages (demo_opts\<lparr>stages := [''production'']\<rparr>) \<noteq> []
   \<and> versions (demo_opts\<lparr>stages := [''production'']\<rparr>) = []
   \<and> version_selector (demo_opts\<lparr>stages := [''production'']\<rparr>)
       [demo_version (VInt 3) ''Production'' ''r3'', demo_version (VInt 1) ''Archived'' ''r1'',
        demo_version (VInt 2) ''Staging'' ''r2'']
     = [demo_version (VInt 3) ''Production'' ''r3'']"
proof -
  have a: "stages (demo_opts\<lparr>stages := [''production'']\<rparr>) \<noteq> []
     \<and> versions (demo_opts\<lparr>stages := [''production'']\<rparr>) = []"
    by (simp add: demo_opts_def)
  have l: "lower ''Production'' = ''production''" "lower ''Archived'' = ''archived''"
    "lower ''Staging'' = ''staging''"
    by (simp_all add: lower_def lower_char_def)
  note sel = version_selection [of env client
        "[demo_version (VInt 3) ''Production'' ''r3'', demo_version (VInt 1) ''Archived'' ''r1'',
          demo_version (VInt 2) ''Staging'' ''r2'']" n output_dir
        "demo_opts\<lparr>stages := [''production'']\<rparr>" outs fails s,
        THEN conjunct2, THEN conjunct2, THEN conjunct2, THEN conjunct2, THEN conjunct1]
  from sel a have "version_selector (demo_opts\<lparr>stages := [''production'']\<rparr>)
       [demo_version (VInt 3) ''Production'' ''r3'', demo_version (VInt 1) ''Archived'' ''r1'',
        demo_version (VInt 2) ''Staging'' ''r2'']
     = filter (\<lambda>vr. lower (current_stage vr)
                      \<in> set (stages (demo_opts\<lparr>stages := [''production'']\<rparr>)))
       [demo_version (VInt 3) ''Production'' ''r3'', demo_version (VInt 1) ''Archived'' ''r1'',
        demo_version (VInt 2) ''Staging'' ''r2'']"
    by (rule mp)
  also have "\<dots> = [demo_version (VInt 3) ''Production'' ''r3'']"
    by (simp add: demo_version_def demo_opts_def l)
  finally show ?thesis using a by simp
qed

text \<open>
  Claim C3 fails for a failure that is not a \<^verbatim>\<open>RestException\<close>. Version 1's run export
  raises an \<^verbatim>\<open>OSError\<close>: the driver raises it on, no failure record is made, and
  version 2 is never processed (the only call in the trace is the export of run
  \<open>broken\<close>).
\<close>

theorem other_failure_aborts_batch:
  "fst (priv_export_versions (demo_env []) demo_client
         [demo_version (VStr ''1'') ''None'' ''broken'', demo_version (VStr ''2'') ''None'' ''r2'']
         ''out'' demo_opts demo_state) = Inl (OtherException ''OSError'')
   \<and> trace (world (snd (priv_export_versions (demo_env []) demo_client
         [demo_version (VStr ''1'') ''None'' ''broken'', demo_version (VStr ''2'') ''None'' ''r2'']
         ''out'' demo_opts demo_state))) = [ExportRun ''broken'' ''out/broken'']"
  by (simp add: demo_simps prog_simps)

text \<open>
  Claim C3, amended. Let each selected version either fail with a \<^verbatim>\<open>RestException\<close>,
  whose payload \<open>failure\<close> gives, or be exported (and let the selected identifiers be all
  integers or all strings, so that the final sort can compare them). Then the driver
  returns: every failure was caught at the version boundary and the versions after it
  were processed. The failure list holds, in listing order, exactly the failure records
  of the failing versions, each with the message that classifies its payload's error
  code, model name, version, run id and the raw payload; the success list names exactly
  the other selected versions. With \<open>N\<close> versions selected and \<open>K\<close> of them failing, the
  failure list has length \<open>K\<close> and the success list length \<open>N - K\<close>.
  For a single version: a \<^verbatim>\<open>RestException\<close> raised by its export is caught, the record
  with the raised payload is appended, the success list is left alone and the record is
  logged; and an exception raised by the run exporter is what the export of the version
  raises.
\<close>

theorem rest_failures_isolated:
  fixes failure :: "model_version \<Rightarrow> dict option"
  assumes fail: "\<And>vr ej s. vr \<in> set (version_selector opts vrs) \<Longrightarrow> failure vr = Some ej \<Longrightarrow>
        fst (export_version_body env client vr output_dir (os_path_join output_dir (run_id vr))
               opts s) = Inl (RestException ej)"
    and ok: "\<And>vr s. vr \<in> set (version_selector opts vrs) \<Longrightarrow> failure vr = None \<Longrightarrow>
        \<exists>d. fst (export_version_body env client vr output_dir
                    (os_path_join output_dir (run_id vr)) opts s) = Inr d"
    and kind: "list_all (\<lambda>vr. is_int_version (version vr)) (version_selector opts vrs)
             \<or> list_all (\<lambda>vr. is_str_version (version vr)) (version_selector opts vrs)"
  shows "(\<exists>outs fails s'.
            priv_export_versions env client vrs output_dir opts s = (Inr (outs, fails), s')
          \<and> fails = List.map_filter (\<lambda>vr. map_option (failure_record vr) (failure vr))
                       (version_selector opts vrs)
          \<and> mset (map success_key outs)
              = mset (map version_key
                        (filter (\<lambda>vr. failure vr = None) (version_selector opts vrs)))
          \<and> length fails
              = length (filter (\<lambda>vr. failure vr \<noteq> None) (version_selector opts vrs))
          \<and> length outs
              = length (version_selector opts vrs)
                - length (filter (\<lambda>vr. failure vr \<noteq> None) (version_selector opts vrs)))
       \<and> (\<forall>ej s1.
             export_version_body env client v output_dir (os_path_join output_dir (run_id v))
               opts (version_start v output_dir j n s0) = (Inl (RestException ej), s1) \<longrightarrow>
             priv_export_version env client v output_dir outs0 fails0 j n opts s0
               = (Inr (outs0, fails0 @ [failure_record v ej]), failure_logged v ej s1))
       \<and> (\<forall>e w'.
             export_run env (run_id v) opath (Some (export_deleted_runs opts))
               (notebook_formats opts) None (world s0) = (Inl e, w') \<longrightarrow>
             export_version_body env client v output_dir opath opts s0
               = (Inl e, s0\<lparr>world := w'\<rparr>))"
proof -
  let ?sel = "filter (\<lambda>p. selected opts (snd p)) (List.enumerate 0 vrs)"
  let ?vs = "version_selector opts vrs"
  let ?rec = "\<lambda>vr. map_option (failure_record vr) (failure vr)"
  have sel: "map snd ?sel = ?vs"
    by (simp add: map_snd_filter_enumerate version_selector_filter)
  then have sel': "snd ` set ?sel = set ?vs"
    by (metis set_map)
  have "\<exists>ds s'.
           export_each env client ?sel (length vrs) output_dir opts [] [] s
             = (Inr ([] @ ds, [] @ List.map_filter ?rec (map snd ?sel)), s')
         \<and> map success_key ds = map version_key (filter (\<lambda>vr. failure vr = None) (map snd ?sel))
         \<and> (\<forall>d \<in> set ds. \<exists>vr \<in> snd ` set ?sel.
               map_of d ''version'' = Some (json_of_version (version vr)))"
  proof (rule export_each_outcomes)
    fix vr ej s
    assume "vr \<in> snd ` set ?sel" and f: "failure vr = Some ej"
    then have "vr \<in> set ?vs" unfolding sel' by simp
    then show "fst (export_version_body env client vr output_dir
                      (os_path_join output_dir (run_id vr)) opts s) = Inl (RestException ej)"
      using f by (rule fail)
  next
    fix vr s
    assume "vr \<in> snd ` set ?sel" and f: "failure vr = None"
    then have "vr \<in> set ?vs" unfolding sel' by simp
    then show "\<exists>d. fst (export_version_body env client vr output_dir
                      (os_path_join output_dir (run_id vr)) opts s) = Inr d"
      using f by (rule ok)
  qed
  then obtain ds s' where
    e: "export_each env client ?sel (length vrs) output_dir opts [] [] s
          = (Inr (ds, List.map_filter ?rec ?vs), s')"
    and k: "map success_key ds = map version_key (filter (\<lambda>vr. failure vr = None) ?vs)"
    and v: "\<forall>d \<in> set ds. \<exists>vr \<in> set ?vs.
               map_of d ''version'' = Some (json_of_version (version vr))"
    unfolding sel sel' by (elim exE conjE) simp
  have "(\<forall>d \<in> set ds. \<exists>i. map_of d ''version'' = Some (JInt i))
      \<or> (\<forall>d \<in> set ds. \<exists>t. map_of d ''version'' = Some (JStr t))"
    using kind
  proof
    assume a: "list_all (\<lambda>vr. is_int_version (version vr)) ?vs"
    have "\<exists>i. map_of d ''version'' = Some (JInt i)" if "d \<in> set ds" for d
    proof -
      from v that obtain vr where vr: "vr \<in> set ?vs"
        "map_of d ''version'' = Some (json_of_version (version vr))" by blast
      with a have "is_int_version (version vr)" by (simp add: list_all_iff)
      then show ?thesis using vr(2) by (cases "version vr") auto
    qed
    then show ?thesis by blast
  next
    assume a: "list_all (\<lambda>vr. is_str_version (version vr)) ?vs"
    have "\<exists>t. map_of d ''version'' = Some (JStr t)" if "d \<in> set ds" for d
    proof -
      from v that obtain vr where vr: "vr \<in> set ?vs"
        "map_of d ''version'' = Some (json_of_version (version vr))" by blast
      with a have "is_str_version (version vr)" by (simp add: list_all_iff)
      then show ?thesis using vr(2) by (cases "version vr") auto
    qed
    then show ?thesis by blast
  qed
  from py_sort_by_total [OF this] obtain outs where srt: "py_sort_by ''version'' ds = Inr outs"
    by blast
  have m: "mset outs = mset ds" using srt by (rule py_sort_by_mset)
  have 1: "priv_export_versions env client vrs output_dir opts s
             = (Inr (outs, List.map_filter ?rec ?vs), s')"
    using e srt by (simp add: priv_export_versions_def loop_is_export_each bind_def return_def)
  have "mset (map success_key outs) = mset (map success_key ds)"
    using m by (metis mset_map)
  then have 2: "mset (map success_key outs)
              = mset (map version_key (filter (\<lambda>vr. failure vr = None) ?vs))"
    using k by simp
  have 3: "length (List.map_filter ?rec ?vs)
             = length (filter (\<lambda>vr. failure vr \<noteq> None) ?vs)"
    by (simp add: List.map_filter_def)
  have "length outs = length ds" using m by (metis size_mset)
  also have "\<dots> = length (filter (\<lambda>vr. failure vr = None) ?vs)"
    using k by (metis length_map)
  also have "\<dots> = length ?vs - length (filter (\<lambda>vr. failure vr \<noteq> None) ?vs)"
    using sum_length_filter_compl [of "\<lambda>vr. failure vr = None" ?vs] by simp
  finally have 4: "length outs = length ?vs - length (filter (\<lambda>vr. failure vr \<noteq> None) ?vs)" .
  have batch: "\<exists>outs fails s'.
            priv_export_versions env client vrs output_dir opts s = (Inr (outs, fails), s')
          \<and> fails = List.map_filter ?rec ?vs
          \<and> mset (map success_key outs)
              = mset (map version_key (filter (\<lambda>vr. failure vr = None) ?vs))
          \<and> length fails = length (filter (\<lambda>vr. failure vr \<noteq> None) ?vs)
          \<and> length outs = length ?vs - length (filter (\<lambda>vr. failure vr \<noteq> None) ?vs)"
    by (intro exI conjI) (rule 1 refl 2 3 4)+
  have one: "\<forall>ej s1.
             export_version_body env client v output_dir (os_path_join output_dir (run_id v))
               opts (version_start v output_dir j n s0) = (Inl (RestException ej), s1) \<longrightarrow>
             priv_export_version env client v output_dir outs0 fails0 j n opts s0
               = (Inr (outs0, fails0 @ [failure_record v ej]), failure_logged v ej s1)"
    by (simp add: pev_rest)
  have run: "\<forall>e w'.
             export_run env (run_id v) opath (Some (export_deleted_runs opts))
               (notebook_formats opts) None (world s0) = (Inl e, w') \<longrightarrow>
             export_version_body env client v output_dir opath opts s0
               = (Inl e, s0\<lparr>world := w'\<rparr>)"
    by (simp add: body_export_run_raises)
  from batch one run show ?thesis by (intro conjI)
qed

text \<open>
  Versions 1, 2 and 3, the run behind version 2 deleted on the server. Versions 1 and 3
  make the success list, so the export went on after the failure; the record of version 2,
  with the server's payload and the resource-not-found message, is the failure list.
\<close>

lemma demo_body_gone:
  "fst (export_version_body (demo_env reg) client (demo_version v stage ''gone'') output_dir
          opath demo_opts s)
   = Inl (RestException [(''error_code'', JStr ''RESOURCE_DOES_NOT_EXIST'')])"
  by (simp add: export_version_body_def bind_def call_def demo_env_def demo_export_run_def
      demo_version_def demo_opts_def split: prod.splits)

lemma demo_body_exported:
  assumes "rid \<noteq> ''gone''" and "rid \<noteq> ''broken''"
  shows "\<exists>d. fst (export_version_body (demo_env reg) client (demo_version v stage rid)
                    output_dir opath demo_opts s) = Inr d"
  using assms
  by (simp add: export_version_body_def bind_def return_def call_def Let_def demo_env_def
      demo_export_run_def demo_version_def demo_opts_def split: prod.splits)

theorem rest_failures_isolated_witness:
  "\<exists>outs fails s'.
     priv_export_versions (demo_env []) demo_client
       [demo_version (VStr ''1'') ''None'' ''r1'', demo_version (VStr ''2'') ''None'' ''gone'',
        demo_version (VStr ''3'') ''None'' ''r3'']
       ''out'' demo_opts demo_state = (Inr (outs, fails), s')
     \<and> fails = [failure_record (demo_version (VStr ''2'') ''None'' ''gone'')
                  [(''error_code'', JStr ''RESOURCE_DOES_NOT_EXIST'')]]
     \<and> mset (map success_key outs)
         = {# version_key (demo_version (VStr ''1'') ''None'' ''r1''),
              version_key (demo_version (VStr ''3'') ''None'' ''r3'') #}
     \<and> length fails = 1
     \<and> length outs = 2
     \<and> map_of (failure_record (demo_version (VStr ''2'') ''None'' ''gone'')
                  [(''error_code'', JStr ''RESOURCE_DOES_NOT_EXIST'')]) ''message''
         = Some (JStr ''Version run probably does not exist'')"
proof -
  let ?v1 = "demo_version (VStr ''1'') ''None'' ''r1''"
  let ?v2 = "demo_version (VStr ''2'') ''None'' ''gone''"
  let ?v3 = "demo_version (VStr ''3'') ''None'' ''r3''"
  let ?vrs = "[?v1, ?v2, ?v3]"
  let ?pay = "[(''error_code'', JStr ''RESOURCE_DOES_NOT_EXIST'')]"
  define failure :: "model_version \<Rightarrow> dict option"
    where "failure vr = (if run_id vr = ''gone'' then Some ?pay else None)" for vr
  have sel: "version_selector demo_opts ?vrs = ?vrs"
    by (simp add: version_selector_def demo_opts_def)
  have f: "failure ?v1 = None" "failure ?v2 = Some ?pay" "failure ?v3 = None"
    by (simp_all add: failure_def demo_version_def)
  have "(\<exists>outs fails s'.
            priv_export_versions (demo_env []) demo_client ?vrs ''out'' demo_opts demo_state
              = (Inr (outs, fails), s')
          \<and> fails = List.map_filter (\<lambda>vr. map_option (failure_record vr) (failure vr))
                       (version_selector demo_opts ?vrs)
          \<and> mset (map success_key outs)
              = mset (map version_key
                        (filter (\<lambda>vr. failure vr = None) (version_selector demo_opts ?vrs)))
          \<and> length fails
              = length (filter (\<lambda>vr. failure vr \<noteq> None) (version_selector demo_opts ?vrs))
          \<and> length outs
              = length (version_selector demo_opts ?vrs)
                - length (filter (\<lambda>vr. failure vr \<noteq> None) (version_selector demo_opts ?vrs)))"
  proof (rule rest_failures_isolated [THEN conjunct1])
    fix vr ej s
    assume "vr \<in> set (version_selector demo_opts ?vrs)" and "failure vr = Some ej"
    then have "vr = ?v2" "ej = ?pay"
      unfolding sel using f by auto
    then show "fst (export_version_body (demo_env []) demo_client vr ''out''
                      (os_path_join ''out'' (run_id vr)) demo_opts s) = Inl (RestException ej)"
      by (simp add: demo_body_gone)
  next
    fix vr s
    assume "vr \<in> set (version_selector demo_opts ?vrs)" and "failure vr = None"
    then have "vr = ?v1 \<or> vr = ?v3"
      unfolding sel using f by auto
    then show "\<exists>d. fst (export_version_body (demo_env []) demo_client vr ''out''
                      (os_path_join ''out'' (run_id vr)) demo_opts s) = Inr d"
      by (auto simp: demo_body_exported)
  next
    show "list_all (\<lambda>vr. is_int_version (version vr)) (version_selector demo_opts ?vrs)
       \<or> list_all (\<lambda>vr. is_str_version (version vr)) (version_selector demo_opts ?vrs)"
      unfolding sel by (simp add: demo_version_def)
  qed
  then obtain outs fails s' where
    r: "priv_export_versions (demo_env []) demo_client ?vrs ''out'' demo_opts demo_state
              = (Inr (outs, fails), s')"
    and a: "fails = List.map_filter (\<lambda>vr. map_option (failure_record vr) (failure vr)) ?vrs"
    and b: "mset (map success_key outs)
              = mset (map version_key (filter (\<lambda>vr. failure vr = None) ?vrs))"
    and c: "length fails = length (filter (\<lambda>vr. failure vr \<noteq> None) ?vrs)"
    and d: "length outs = length ?vrs - length (filter (\<lambda>vr. failure vr \<noteq> None) ?vrs)"
    unfolding sel by (elim exE conjE)
  have 1: "fails = [failure_record ?v2 ?pay]"
    using a f by (simp add: List.map_filter_simps)
  have 2: "mset (map success_key outs) = {# version_key ?v1, version_key ?v3 #}"
    using b f by simp
  have 3: "length fails = 1" using c f by simp
  have 4: "length outs = 2" using d f by simp
  have 5: "map_of (failure_record ?v2 ?pay) ''message''
         = Some (JStr ''Version run probably does not exist'')"
    by (simp add: failure_record_def dict_get_def)
  show ?thesis
    by (intro exI conjI) (rule r 1 2 3 4 5)+
qed

text \<open>
  Claim C4: the success list the driver returns is sorted ascending by version number,
  whatever the order of the listing. The code does not achieve this for the string
  identifiers a REST registry returns: versions \<open>9\<close> and \<open>10\<close>, listed in this order and
  both exported, come back as \<open>10\<close>, \<open>9\<close>, because the sort compares the identifiers as
  Python compares strings.
\<close>

theorem string_versions_sorted_lexicographically:
  "map_sum id (\<lambda>r. map (\<lambda>d. dict_get d ''version'') (fst r))
     (fst (priv_export_versions (demo_env []) demo_client
         [demo_version (VStr ''9'') ''None'' ''r9'', demo_version (VStr ''10'') ''None'' ''r10'']
         ''out'' demo_opts demo_state))
   = Inr [JStr ''10'', JStr ''9'']"
  by (simp add: demo_simps prog_simps)

text \<open>
  What the sort does give: the success list is ascending in Python's own order of the
  identifiers, which is the order of the version numbers when the identifiers are
  integers. Each entry's identifier is that of a selected version.
\<close>

theorem success_list_sorted:
  assumes "priv_export_versions env client vrs output_dir opts s = (Inr (outs, fails), s')"
  shows "sorted_wrt key_le (map (\<lambda>d. dict_get d ''version'') outs)
       \<and> list_all (\<lambda>d. \<exists>vr. vr \<in> set (version_selector opts vrs)
                           \<and> dict_get d ''version'' = json_of_version (version vr)) outs
       \<and> key_le (JInt i) (JInt j) = (i \<le> j)
       \<and> key_le (JStr t) (JStr u) = (t \<le> u)"
proof -
  let ?sel = "filter (\<lambda>p. selected opts (snd p)) (List.enumerate 0 vrs)"
  have sel: "snd ` set ?sel = set (version_selector opts vrs)"
    using map_snd_filter_enumerate [of "selected opts" 0 vrs]
    by (metis set_map version_selector_filter)
  from export_versions_returns [OF assms] obtain outs0 where
    l: "export_versions_loop env client vrs 0 (length vrs) output_dir opts [] [] s
          = (Inr (outs0, fails), s')"
    and srt: "py_sort_by ''version'' outs0 = Inr outs"
    by blast
  from l have "export_each env client ?sel (length vrs) output_dir opts [] [] s
          = (Inr (outs0, fails), s')"
    by (simp add: loop_is_export_each)
  from export_each_returns [OF this]
  have "\<forall>d \<in> set outs0. d \<in> set [] \<or>
             (\<exists>vr. vr \<in> snd ` set ?sel \<and> success_key d = version_key vr
                  \<and> map_of d ''version'' = Some (json_of_version (version vr)))"
    by blast
  then have "\<forall>d \<in> set outs0. \<exists>vr. vr \<in> set (version_selector opts vrs)
                  \<and> dict_get d ''version'' = json_of_version (version vr)"
    unfolding sel by (fastforce simp: dict_get_def)
  moreover have "set outs = set outs0"
    using py_sort_by_mset [OF srt] by (metis set_mset_mset)
  ultimately have 2: "list_all (\<lambda>d. \<exists>vr. vr \<in> set (version_selector opts vrs)
                           \<and> dict_get d ''version'' = json_of_version (version vr)) outs"
    by (simp add: list_all_iff)
  have 1: "sorted_wrt key_le (map (\<lambda>d. dict_get d ''version'') outs)"
    using srt by (rule py_sort_by_sorted)
  have 3: "key_le (JInt i) (JInt j) = (i \<le> j)" "key_le (JStr t) (JStr u) = (t \<le> u)"
    by (auto simp: key_le_def)
  from 1 2 3 show ?thesis by simp
qed

theorem success_list_sorted_witness:
  "\<exists>outs fails s'.
     priv_export_versions (demo_env []) demo_client
       [demo_version (VInt 3) ''None'' ''r3'', demo_version (VInt 1) ''None'' ''r1'',
        demo_version (VInt 2) ''None'' ''r2'']
       ''out'' demo_opts demo_state = (Inr (outs, fails), s')
     \<and> map (\<lambda>d. dict_get d ''version'') outs = [JInt 1, JInt 2, JInt 3]
     \<and> sorted_wrt key_le (map (\<lambda>d. dict_get d ''version'') outs)"
proof -
  obtain r s' where r: "priv_export_versions (demo_env []) demo_client
       [demo_version (VInt 3) ''None'' ''r3'', demo_version (VInt 1) ''None'' ''r1'',
        demo_version (VInt 2) ''None'' ''r2'']
       ''out'' demo_opts demo_state = (r, s')"
    by (cases "priv_export_versions (demo_env []) demo_client
       [demo_version (VInt 3) ''None'' ''r3'', demo_version (VInt 1) ''None'' ''r1'',
        demo_version (VInt 2) ''None'' ''r2'']
       ''out'' demo_opts demo_state")
  have "map_sum id (\<lambda>r. (map (\<lambda>d. dict_get d ''version'') (fst r), length (snd r))) r
          = Inr ([JInt 1, JInt 2, JInt 3], 0)"
    using r [symmetric] by (simp add: demo_simps prog_simps)
  then obtain outs fails where o: "r = Inr (outs, fails)"
     "map (\<lambda>d. dict_get d ''version'') outs = [JInt 1, JInt 2, JInt 3]"
    by (cases r) auto
  from success_list_sorted [OF r [unfolded o(1)]]
  have "sorted_wrt key_le (map (\<lambda>d. dict_get d ''version'') outs)" by (rule conjunct1)
  with o r show ?thesis by auto
qed

text \<open>
  Claim C9 fails when the driver does not return: version 1 is selected and exported, then
  the export of version 2 raises an \<^verbatim>\<open>OSError\<close>, which leaves the driver. No list is
  returned, so version 1 and version 2 are in neither.
\<close>

theorem abort_loses_exported_version:
  "fst (priv_export_versions (demo_env []) demo_client
         [demo_version (VInt 1) ''None'' ''r1'', demo_version (VInt 2) ''None'' ''broken'']
         ''out'' demo_opts demo_state) = Inl (OtherException ''OSError'')
   \<and> trace (world (snd (priv_export_versions (demo_env []) demo_client
         [demo_version (VInt 1) ''None'' ''r1'', demo_version (VInt 2) ''None'' ''broken'']
         ''out'' demo_opts demo_state)))
     = [ExportRun ''r1'' ''out/r1'', GetRun ''r1'', GetExperiment ''7'',
        ExportRun ''broken'' ''out/broken'']"
  by (simp add: demo_simps prog_simps)

text \<open>
  Claim C9, amended. Whenever the driver returns its two lists, the selected versions are
  partitioned between them: counted with multiplicity, the versions named by the success
  list and those named by the failure list are exactly the versions the filters let
  pass. A version whose identity is that of no selected version is therefore named in
  neither list: filtered-out versions are skipped silently.
\<close>

theorem selected_versions_partitioned:
  assumes "priv_export_versions env client vrs output_dir opts s = (Inr (outs, fails), s')"
  shows "mset (map success_key outs) + mset (map failure_key fails)
           = mset (map version_key (version_selector opts vrs))
       \<and> (version_key vr \<notin> set (map version_key (version_selector opts vrs)) \<longrightarrow>
            version_key vr \<notin> set (map success_key outs)
          \<and> version_key vr \<notin> set (map failure_key fails))"
proof -
  let ?sel = "filter (\<lambda>p. selected opts (snd p)) (List.enumerate 0 vrs)"
  from export_versions_returns [OF assms] obtain outs0 where
    l: "export_versions_loop env client vrs 0 (length vrs) output_dir opts [] [] s
          = (Inr (outs0, fails), s')"
    and srt: "py_sort_by ''version'' outs0 = Inr outs"
    by blast
  from l have "export_each env client ?sel (length vrs) output_dir opts [] [] s
          = (Inr (outs0, fails), s')"
    by (simp add: loop_is_export_each)
  from export_each_returns [OF this]
  have "mset (map success_key outs0) + mset (map failure_key fails) =
           mset (map success_key []) + mset (map failure_key [])
           + mset (map (\<lambda>p. version_key (snd p)) ?sel)"
    by blast
  then have a: "image_mset success_key (mset outs0) + image_mset failure_key (mset fails) =
           image_mset version_key (mset (map snd ?sel))"
    by (simp add: multiset.map_comp comp_def)
  have b: "map snd ?sel = version_selector opts vrs"
    by (simp add: map_snd_filter_enumerate version_selector_filter)
  have c: "mset outs = mset outs0"
    using srt by (rule py_sort_by_mset)
  have m: "mset (map success_key outs) + mset (map failure_key fails)
           = mset (map version_key (version_selector opts vrs))"
    using a unfolding b by (simp add: c)
  have "set (map success_key outs) \<union> set (map failure_key fails)
          = set (map version_key (version_selector opts vrs))"
  proof -
    have "set_mset (mset (map success_key outs) + mset (map failure_key fails))
          = set_mset (mset (map version_key (version_selector opts vrs)))"
      by (simp only: m)
    then show ?thesis by (simp only: set_mset_union set_mset_mset)
  qed
  with m show ?thesis by blast
qed

theorem selected_versions_partitioned_witness:
  "\<exists>outs fails s'.
     priv_export_versions (demo_env []) demo_client
       [demo_version (VInt 3) ''Production'' ''r3'', demo_version (VInt 1) ''Archived'' ''gone'',
        demo_version (VInt 2) ''Staging'' ''r2'']
       ''out'' (demo_opts\<lparr>versions := [VInt 1, VInt 3]\<rparr>) demo_state = (Inr (outs, fails), s')
     \<and> map success_key outs = [(JStr ''m'', JInt 3, JStr ''r3'')]
     \<and> map failure_key fails = [(JStr ''m'', JInt 1, JStr ''gone'')]
     \<and> mset (map success_key outs) + mset (map failure_key fails)
         = mset (map version_key (version_selector (demo_opts\<lparr>versions := [VInt 1, VInt 3]\<rparr>)
             [demo_version (VInt 3) ''Production'' ''r3'',
              demo_version (VInt 1) ''Archived'' ''gone'',
              demo_version (VInt 2) ''Staging'' ''r2'']))"
proof -
  let ?vrs = "[demo_version (VInt 3) ''Production'' ''r3'',
               demo_version (VInt 1) ''Archived'' ''gone'',
               demo_version (VInt 2) ''Staging'' ''r2'']"
  let ?opts = "demo_opts\<lparr>versions := [VInt 1, VInt 3]\<rparr>"
  obtain r s' where r: "priv_export_versions (demo_env []) demo_client ?vrs ''out'' ?opts
       demo_state = (r, s')"
    by (cases "priv_export_versions (demo_env []) demo_client ?vrs ''out'' ?opts demo_state")
  have "map_sum id (\<lambda>r. (map success_key (fst r), map failure_key (snd r))) r
          = Inr ([(JStr ''m'', JInt 3, JStr ''r3'')], [(JStr ''m'', JInt 1, JStr ''gone'')])"
    using r [symmetric] by (simp add: demo_simps prog_simps success_key_def failure_key_def)
  then obtain outs fails where o: "r = Inr (outs, fails)"
     "map success_key outs = [(JStr ''m'', JInt 3, JStr ''r3'')]"
     "map failure_key fails = [(JStr ''m'', JInt 1, JStr ''gone'')]"
    by (cases r) auto
  from selected_versions_partitioned [OF r [unfolded o(1)]]
  have "mset (map success_key outs) + mset (map failure_key fails)
           = mset (map version_key (version_selector ?opts ?vrs))" by (rule conjunct1)
  with o r show ?thesis by auto
qed

section \<open>Lemmas about the descriptor assembler\<close>

lemma filter_update_frame:
  "k \<in> S \<Longrightarrow> filter (\<lambda>p. fst p \<notin> S) (AList.update k v d) = filter (\<lambda>p. fst p \<notin> S) d"
  by (induction d) auto

lemma filter_delete_frame:
  "k \<in> S \<Longrightarrow> filter (\<lambda>p. fst p \<notin> S) (AList.delete k d) = filter (\<lambda>p. fst p \<notin> S) d"
  by (induction d) auto

lemma update_absent: "k \<notin> fst ` set d \<Longrightarrow> AList.update k v d = d @ [(k, v)]"
  by (induction d) auto

lemma delete_absent: "k \<notin> fst ` set (AList.delete k d)"
  by (induction d) auto

lemma adjust_timestamp_Inr:
  assumes "priv_adjust_timestamp env dct attr = Inr dct'"
  shows "\<exists>v. fmt_ts_millis env (dict_get dct attr) = Inr v
             \<and> dct' = AList.update (''_'' @ attr) v dct"
  using assms
  by (auto simp: priv_adjust_timestamp_def dict_set_def split: sum.splits)

lemma adjust_versions_Inr:
  "adjust_versions env vrs = Inr vrs' \<Longrightarrow>
     list_all2 (\<lambda>vr vr'.
        map_option Inr (map_of vr' ''_creation_timestamp'')
          = Some (fmt_ts_millis env (dict_get vr ''creation_timestamp''))
      \<and> map_option Inr (map_of vr' ''_last_updated_timestamp'')
          = Some (fmt_ts_millis env (dict_get vr ''last_updated_timestamp''))
      \<and> (\<forall>k. k \<noteq> ''_creation_timestamp'' \<and> k \<noteq> ''_last_updated_timestamp'' \<longrightarrow>
            map_of vr' k = map_of vr k)) vrs vrs'"
proof (induction vrs arbitrary: vrs')
  case Nil
  then show ?case by simp
next
  case (Cons vr rest)
  from Cons.prems obtain vr1 vr2 rest' where
    a: "priv_adjust_timestamp env vr ''creation_timestamp'' = Inr vr1"
      "priv_adjust_timestamp env vr1 ''last_updated_timestamp'' = Inr vr2"
      "adjust_versions env rest = Inr rest'" "vrs' = vr2 # rest'"
    by (auto split: sum.splits)
  from adjust_timestamp_Inr [OF a(1)] obtain c where
    c: "fmt_ts_millis env (dict_get vr ''creation_timestamp'') = Inr c"
      "vr1 = AList.update ''_creation_timestamp'' c vr"
    by auto
  from adjust_timestamp_Inr [OF a(2)] obtain u where
    u: "fmt_ts_millis env (dict_get vr1 ''last_updated_timestamp'') = Inr u"
      "vr2 = AList.update ''_last_updated_timestamp'' u vr1"
    by auto
  have same: "dict_get vr1 ''last_updated_timestamp'' = dict_get vr ''last_updated_timestamp''"
    unfolding c(2) by (simp add: dict_get_def update_conv')
  have 1: "map_option Inr (map_of vr2 ''_creation_timestamp'')
          = Some (fmt_ts_millis env (dict_get vr ''creation_timestamp''))"
    unfolding u(2) c(2) by (simp add: update_conv' c(1))
  have 2: "map_option Inr (map_of vr2 ''_last_updated_timestamp'')
          = Some (fmt_ts_millis env (dict_get vr ''last_updated_timestamp''))"
    unfolding u(2) using u(1) same by (simp add: update_conv')
  have 3: "\<forall>k. k \<noteq> ''_creation_timestamp'' \<and> k \<noteq> ''_last_updated_timestamp'' \<longrightarrow>
            map_of vr2 k = map_of vr k"
    unfolding u(2) c(2) by (simp add: update_conv')
  from 1 2 3 Cons.IH [OF a(3)] a(4) show ?case by simp
qed

lemma adjust_model_Inr:
  assumes "priv_adjust_model env model vrs = Inr (model', vrs')"
  shows "\<exists>c u. model' =
           AList.delete ''latest_versions''
             (AList.update ''versions'' (JList (map JObj vrs'))
               ((if truthy (dict_get model ''tags'')
                 then (\<lambda>m. AList.update ''tags'' (dict_get model ''tags'') m) else (\<lambda>m. m))
                  (AList.delete ''tags''
                    (AList.update ''_last_updated_timestamp'' u
                      (AList.update ''_creation_timestamp'' c model)))))
         \<and> fmt_ts_millis env (dict_get model ''creation_timestamp'') = Inr c
         \<and> fmt_ts_millis env (dict_get model ''last_updated_timestamp'') = Inr u
         \<and> adjust_versions env vrs = Inr vrs'"
  using assms
  by (auto simp: priv_adjust_model_def priv_adjust_timestamp_def dict_pop_def dict_set_def
      dict_get_def update_conv' Let_def split: sum.splits if_splits)

section \<open>Properties of the descriptor assembler\<close>

lemma update_append_present:
  "k \<in> fst ` set xs \<Longrightarrow> AList.update k v (xs @ ys) = AList.update k v xs @ ys"
  by (induction xs) auto

lemma delete_append: "AList.delete k (xs @ ys) = AList.delete k xs @ AList.delete k ys"
  by (simp add: AList.delete_eq)

lemma keys_delete_subset: "fst ` set (AList.delete k d) \<subseteq> fst ` set d"
  by (induction d) auto

lemma keys_update_subset: "fst ` set (AList.update k v d) \<subseteq> insert k (fst ` set d)"
  by (induction d) auto

lemma tags_at_end:
  assumes "''tags'' \<notin> fst ` set m3"
  shows "dropWhile (\<lambda>k. k \<noteq> ''tags'')
           (map fst (AList.delete ''latest_versions''
              (AList.update ''versions'' V (AList.update ''tags'' t m3))))
         \<in> {[''tags''], [''tags'', ''versions'']}"
proof -
  have m4: "AList.update ''tags'' t m3 = m3 @ [(''tags'', t)]"
    using assms by (rule update_absent)
  show ?thesis
  proof (cases "''versions'' \<in> fst ` set m3")
    case True
    let ?front = "AList.delete ''latest_versions'' (AList.update ''versions'' V m3)"
    have "fst ` set ?front \<subseteq> fst ` set (AList.update ''versions'' V m3)"
      by (rule keys_delete_subset)
    also have "\<dots> \<subseteq> insert ''versions'' (fst ` set m3)"
      by (rule keys_update_subset)
    finally have "fst ` set ?front \<subseteq> insert ''versions'' (fst ` set m3)" .
    then have n: "\<forall>k \<in> set (map fst ?front). k \<noteq> ''tags''"
      using assms by (simp only: set_map) blast
    have "AList.delete ''latest_versions''
              (AList.update ''versions'' V (AList.update ''tags'' t m3))
          = ?front @ [(''tags'', t)]"
      using True by (simp add: m4 update_append_present delete_append)
    then have "dropWhile (\<lambda>k. k \<noteq> ''tags'')
           (map fst (AList.delete ''latest_versions''
              (AList.update ''versions'' V (AList.update ''tags'' t m3))))
         = dropWhile (\<lambda>k. k \<noteq> ''tags'') (map fst ?front @ [''tags''])"
      by simp
    also have "\<dots> = [''tags'']"
      using n by (simp add: dropWhile_append)
    finally show ?thesis by simp
  next
    case False
    let ?front = "AList.delete ''latest_versions'' m3"
    have "fst ` set ?front \<subseteq> fst ` set m3"
      by (rule keys_delete_subset)
    then have n: "\<forall>k \<in> set (map fst ?front). k \<noteq> ''tags''"
      using assms by (simp only: set_map) blast
    have "''versions'' \<notin> fst ` set (m3 @ [(''tags'', t)])"
      using False by simp
    then have "AList.update ''versions'' V (m3 @ [(''tags'', t)])
               = (m3 @ [(''tags'', t)]) @ [(''versions'', V)]"
      by (rule update_absent)
    then have "AList.delete ''latest_versions''
              (AList.update ''versions'' V (AList.update ''tags'' t m3))
          = ?front @ [(''tags'', t), (''versions'', V)]"
      by (simp add: m4 delete_append)
    then have "dropWhile (\<lambda>k. k \<noteq> ''tags'')
           (map fst (AList.delete ''latest_versions''
              (AList.update ''versions'' V (AList.update ''tags'' t m3))))
         = dropWhile (\<lambda>k. k \<noteq> ''tags'') (map fst ?front @ [''tags'', ''versions''])"
      by simp
    also have "\<dots> = [''tags'', ''versions'']"
      using n by (simp add: dropWhile_append)
    finally show ?thesis by simp
  qed
qed

text \<open>
  Claim C8 fails for a model whose \<open>tags\<close> field is empty: \<^verbatim>\<open>if tags:\<close> puts back only
  a non-empty value, so the field is removed and not moved.
\<close>

theorem empty_tags_are_dropped:
  "map_sum id (\<lambda>r. map fst (fst r))
     (priv_adjust_model (demo_env [])
        [(''name'', JStr ''m''), (''tags'', JList []), (''creation_timestamp'', JInt 5000)] [])
   = Inr [''name'', ''creation_timestamp'', ''_creation_timestamp'',
          ''_last_updated_timestamp'', ''versions'']"
  by (simp add: priv_adjust_model_def priv_adjust_timestamp_def dict_pop_def dict_set_def
      dict_get_def demo_env_def demo_fmt_ts_millis_def Let_def)

text \<open>
  Claim C8, amended. When the assembler returns (the timestamp formatter raised nothing),
  the model has the keys \<open>_creation_timestamp\<close> and \<open>_last_updated_timestamp\<close>, and under
  them what the formatter makes of its raw timestamps (of \<^verbatim>\<open>None\<close> where a raw timestamp
  is missing); so has every version, and a version's other fields are as before. The version list is attached under \<open>versions\<close> and there is no
  \<open>latest_versions\<close> field. Every field of the model other than these five is unchanged,
  in the same order, the raw timestamps among them. A non-empty \<open>tags\<close> field keeps its
  value and stands at the end of the mapping, followed at most by \<open>versions\<close>; an empty
  or missing one leaves no \<open>tags\<close> field.
\<close>

theorem adjust_model_spec:
  assumes "priv_adjust_model env model vrs = Inr (model', vrs')"
  shows "map_option Inr (map_of model' ''_creation_timestamp'')
           = Some (fmt_ts_millis env (dict_get model ''creation_timestamp''))
       \<and> map_option Inr (map_of model' ''_last_updated_timestamp'')
           = Some (fmt_ts_millis env (dict_get model ''last_updated_timestamp''))
       \<and> list_all2 (\<lambda>vr vr'.
            map_option Inr (map_of vr' ''_creation_timestamp'')
              = Some (fmt_ts_millis env (dict_get vr ''creation_timestamp''))
          \<and> map_option Inr (map_of vr' ''_last_updated_timestamp'')
              = Some (fmt_ts_millis env (dict_get vr ''last_updated_timestamp''))
          \<and> (\<forall>k. k \<noteq> ''_creation_timestamp'' \<and> k \<noteq> ''_last_updated_timestamp'' \<longrightarrow>
                map_of vr' k = map_of vr k)) vrs vrs'
       \<and> map_of model' ''versions'' = Some (JList (map JObj vrs'))
       \<and> ''latest_versions'' \<notin> fst ` set model'
       \<and> filter (\<lambda>p. fst p \<notin> derived_fields) model'
           = filter (\<lambda>p. fst p \<notin> derived_fields) model
       \<and> (if truthy (dict_get model ''tags'')
          then map_of model' ''tags'' = Some (dict_get model ''tags'')
             \<and> dropWhile (\<lambda>k. k \<noteq> ''tags'') (map fst model') \<in> {[''tags''], [''tags'', ''versions'']}
          else ''tags'' \<notin> fst ` set model')"
proof -
  from adjust_model_Inr [OF assms] obtain c u where
    m: "model' =
           AList.delete ''latest_versions''
             (AList.update ''versions'' (JList (map JObj vrs'))
               ((if truthy (dict_get model ''tags'')
                 then (\<lambda>m. AList.update ''tags'' (dict_get model ''tags'') m) else (\<lambda>m. m))
                  (AList.delete ''tags''
                    (AList.update ''_last_updated_timestamp'' u
                      (AList.update ''_creation_timestamp'' c model)))))"
    and c: "fmt_ts_millis env (dict_get model ''creation_timestamp'') = Inr c"
    and u: "fmt_ts_millis env (dict_get model ''last_updated_timestamp'') = Inr u"
    and v: "adjust_versions env vrs = Inr vrs'"
    by blast
  let ?m3 = "AList.delete ''tags''
                    (AList.update ''_last_updated_timestamp'' u
                      (AList.update ''_creation_timestamp'' c model))"
  have 1: "map_of model' ''_creation_timestamp'' = Some c"
    unfolding m by (simp add: delete_conv' update_conv')
  have 2: "map_of model' ''_last_updated_timestamp'' = Some u"
    unfolding m by (simp add: delete_conv' update_conv')
  have 4: "map_of model' ''versions'' = Some (JList (map JObj vrs'))"
    unfolding m by (simp add: delete_conv' update_conv')
  have 5: "''latest_versions'' \<notin> fst ` set model'"
    unfolding m by (rule delete_absent)
  have 6: "filter (\<lambda>p. fst p \<notin> derived_fields) model'
           = filter (\<lambda>p. fst p \<notin> derived_fields) model"
  proof -
    have mem: "''_creation_timestamp'' \<in> derived_fields"
      "''_last_updated_timestamp'' \<in> derived_fields" "''tags'' \<in> derived_fields"
      "''versions'' \<in> derived_fields" "''latest_versions'' \<in> derived_fields"
      by (simp_all add: derived_fields_def)
    show ?thesis
      unfolding m
      by (cases "truthy (dict_get model ''tags'')")
        (simp_all only: if_True if_False filter_update_frame [OF mem(1)]
          filter_update_frame [OF mem(2)] filter_update_frame [OF mem(3)]
          filter_update_frame [OF mem(4)] filter_delete_frame [OF mem(3)]
          filter_delete_frame [OF mem(5)])
  qed
  have 7: "map_of model' ''tags'' = Some (dict_get model ''tags'')
             \<and> dropWhile (\<lambda>k. k \<noteq> ''tags'') (map fst model') \<in> {[''tags''], [''tags'', ''versions'']}"
    if t: "truthy (dict_get model ''tags'')"
  proof -
    have a: "map_of model' ''tags'' = Some (dict_get model ''tags'')"
      unfolding m using t by (simp add: delete_conv' update_conv')
    have "''tags'' \<notin> fst ` set ?m3" by (rule delete_absent)
    from tags_at_end [OF this] have
      "dropWhile (\<lambda>k. k \<noteq> ''tags'') (map fst model') \<in> {[''tags''], [''tags'', ''versions'']}"
      unfolding m using t by simp
    with a show ?thesis by simp
  qed
  have 8: "''tags'' \<notin> fst ` set model'" if t: "\<not> truthy (dict_get model ''tags'')"
  proof -
    have a: "''tags'' \<notin> fst ` set ?m3" by (rule delete_absent)
    have "model' = AList.delete ''latest_versions''
                     (AList.update ''versions'' (JList (map JObj vrs')) ?m3)"
      unfolding m using t by simp
    then have "fst ` set model'
                 \<subseteq> fst ` set (AList.update ''versions'' (JList (map JObj vrs')) ?m3)"
      using keys_delete_subset by metis
    also have "\<dots> \<subseteq> insert ''versions'' (fst ` set ?m3)"
      by (rule keys_update_subset)
    finally show ?thesis using a by auto
  qed
  have 9: "if truthy (dict_get model ''tags'')
          then map_of model' ''tags'' = Some (dict_get model ''tags'')
             \<and> dropWhile (\<lambda>k. k \<noteq> ''tags'') (map fst model') \<in> {[''tags''], [''tags'', ''versions'']}
          else ''tags'' \<notin> fst ` set model'"
    using 7 8 by (cases "truthy (dict_get model ''tags'')") simp_all
  have 10: "map_option Inr (map_of model' ''_creation_timestamp'')
           = Some (fmt_ts_millis env (dict_get model ''creation_timestamp''))"
    using c 1 by simp
  have 11: "map_option Inr (map_of model' ''_last_updated_timestamp'')
           = Some (fmt_ts_millis env (dict_get model ''last_updated_timestamp''))"
    using u 2 by simp
  note 3 = adjust_versions_Inr [OF v]
  show ?thesis
    by (intro conjI) (rule 10 11 3 4 5 6 9)+
qed

text \<open>A model with tags and a stale \<open>latest_versions\<close> field, and one version.\<close>

theorem adjust_model_spec_witness:
  "\<exists>model' vrs'.
     priv_adjust_model (demo_env [])
       [(''name'', JStr ''m''), (''creation_timestamp'', JInt 5000),
        (''tags'', JList [JObj [(''key'', JStr ''k''), (''value'', JStr ''v'')]]),
        (''latest_versions'', JList []), (''description'', JStr ''demo'')]
       [[(''version'', JInt 1), (''creation_timestamp'', JInt 7000)]] = Inr (model', vrs')
     \<and> map fst model' = [''name'', ''creation_timestamp'', ''description'',
                           ''_creation_timestamp'', ''_last_updated_timestamp'', ''tags'',
                           ''versions'']
     \<and> map_of model' ''_creation_timestamp'' = Some (JList [JStr ''seconds'', JInt 5])
     \<and> map_of model' ''_last_updated_timestamp'' = Some JNull
     \<and> map_of model' ''versions'' = Some (JList (map JObj vrs'))
     \<and> filter (\<lambda>p. fst p \<notin> derived_fields) model'
         = [(''name'', JStr ''m''), (''creation_timestamp'', JInt 5000),
            (''description'', JStr ''demo'')]"
proof -
  let ?model = "[(''name'', JStr ''m''), (''creation_timestamp'', JInt 5000),
        (''tags'', JList [JObj [(''key'', JStr ''k''), (''value'', JStr ''v'')]]),
        (''latest_versions'', JList []), (''description'', JStr ''demo'')]"
  let ?vrs = "[[(''version'', JInt 1), (''creation_timestamp'', JInt 7000)]]"
  have "map_sum id (\<lambda>r. map fst (fst r)) (priv_adjust_model (demo_env []) ?model ?vrs)
          = Inr [''name'', ''creation_timestamp'', ''description'',
                 ''_creation_timestamp'', ''_last_updated_timestamp'', ''tags'', ''versions'']"
    by (simp add: priv_adjust_model_def priv_adjust_timestamp_def dict_pop_def dict_set_def
      dict_get_def demo_env_def demo_fmt_ts_millis_def Let_def)
  then obtain model' vrs' where r: "priv_adjust_model (demo_env []) ?model ?vrs = Inr (model', vrs')"
    and k: "map fst model' = [''name'', ''creation_timestamp'', ''description'',
                 ''_creation_timestamp'', ''_last_updated_timestamp'', ''tags'', ''versions'']"
    by (cases "priv_adjust_model (demo_env []) ?model ?vrs") auto
  note spec = adjust_model_spec [OF r]
  have v: "map_of model' ''versions'' = Some (JList (map JObj vrs'))"
    using spec by blast
  have "map_option Inr (map_of model' ''_creation_timestamp'')
          = Some (fmt_ts_millis (demo_env []) (dict_get ?model ''creation_timestamp''))"
    using spec by (rule conjunct1)
  then have c: "map_of model' ''_creation_timestamp'' = Some (JList [JStr ''seconds'', JInt 5])"
    by (auto simp: dict_get_def demo_env_def demo_fmt_ts_millis_def)
  have "map_option Inr (map_of model' ''_last_updated_timestamp'')
          = Some (fmt_ts_millis (demo_env []) (dict_get ?model ''last_updated_timestamp''))"
    using spec by (rule conjunct2 [THEN conjunct1])
  then have u: "map_of model' ''_last_updated_timestamp'' = Some JNull"
    by (auto simp: dict_get_def demo_env_def demo_fmt_ts_millis_def)
  have "filter (\<lambda>p. fst p \<notin> derived_fields) model'
         = filter (\<lambda>p. fst p \<notin> derived_fields) ?model"
    using spec by blast
  also have "\<dots> = [(''name'', JStr ''m''), (''creation_timestamp'', JInt 5000),
            (''description'', JStr ''demo'')]"
    by (simp add: derived_fields_def)
  finally have f: "filter (\<lambda>p. fst p \<notin> derived_fields) model'
         = [(''name'', JStr ''m''), (''creation_timestamp'', JInt 5000),
            (''description'', JStr ''demo'')]" .
  show ?thesis
    by (intro exI conjI) (rule r k c u v f)+
qed

section \<open>Properties of the export orchestrator\<close>

text \<open>
  Claim C1 fails when both filters are set: the check stands before the \<^verbatim>\<open>try\<close>, and
  its \<^verbatim>\<open>MlflowExportImportException\<close> reaches the caller.
\<close>

theorem conflicting_filters_raise:
  "fst (export_model (demo_env []) ''m'' ''out'' (StagesStr ''Production'') (Some [VStr ''1''])
          False False False False None None demo_state)
   = Inl (MlflowExportImportException
            (JList [JStr ''Both stages '', JList [JStr ''production''],
                    JStr '' and versions '', JList [JStr ''1''], JStr '' cannot be set'']) 400)"
  by (simp add: export_model_def priv_normalize_stages_def lower_def lower_char_def
      demo_simps Let_def)

text \<open>
  Claim C1, amended. When the stage filter and the version filter are not both
  non-empty, \<^verbatim>\<open>export_model\<close> raises nothing: it returns a boolean and the model name.
  The boolean is true exactly when \<^verbatim>\<open>_export_model\<close> returned; every exception it
  raised, from fetching the model or its versions or from anywhere else, has become the
  result false.
\<close>

theorem export_model_returns:
  assumes "fst (priv_normalize_stages env stgs s) = [] \<or> vers = None \<or> vers = Some []"
  shows "\<exists>b s'.
           export_model env model_name output_dir stgs vers latest version_model permissions
             deleted_runs formats client_arg s = (Inr (b, model_name), s')
         \<and> b = (\<exists>s1. priv_export_model env
                    (case client_arg of None \<Rightarrow> default_client env | Some c \<Rightarrow> c)
                    model_name output_dir
                    \<lparr> stages = fst (priv_normalize_stages env stgs s),
                      versions = (case vers of None \<Rightarrow> [] | Some v \<Rightarrow> v),
                      export_latest_versions = latest, export_deleted_runs = deleted_runs,
                      export_version_model = version_model,
                      export_permissions = permissions, notebook_formats = formats \<rparr>
                    (snd (priv_normalize_stages env stgs s)) = (Inr (), s1))"
proof -
  let ?client = "case client_arg of None \<Rightarrow> default_client env | Some c \<Rightarrow> c"
  let ?opts = "\<lparr> stages = fst (priv_normalize_stages env stgs s),
                      versions = (case vers of None \<Rightarrow> [] | Some v \<Rightarrow> v),
                      export_latest_versions = latest, export_deleted_runs = deleted_runs,
                      export_version_model = version_model,
                      export_permissions = permissions, notebook_formats = formats \<rparr>"
  let ?s0 = "snd (priv_normalize_stages env stgs s)"
  have guard: "\<not> (length (fst (priv_normalize_stages env stgs s)) > 0
                 \<and> length (case vers of None \<Rightarrow> [] | Some v \<Rightarrow> v) > 0)"
    using assms by auto
  obtain r s1 where r: "priv_export_model env ?client model_name output_dir ?opts ?s0 = (r, s1)"
    by (cases "priv_export_model env ?client model_name output_dir ?opts ?s0")
  show ?thesis
  proof (cases r)
    case (Inr u)
    with r guard show ?thesis
      by (auto simp add: export_model_def Let_def split_beta)
  next
    case (Inl e)
    with r guard show ?thesis
      by (cases e) (auto simp add: export_model_def Let_def split_beta)
  qed
qed

text \<open>
  Claim C2. When the normalized stage filter and the version filter are both non-empty,
  \<^verbatim>\<open>export_model\<close> raises \<^verbatim>\<open>MlflowExportImportException\<close> with status 400, an exception
  and not a failure record or a false result, and the world is as it was: no collaborator
  has run, so no version was listed or exported and nothing was written.
\<close>

theorem conflicting_filters_fail_fast:
  assumes "fst (priv_normalize_stages env stgs s) \<noteq> []" and "vers = Some vs" and "vs \<noteq> []"
  shows "\<exists>msg s'.
           export_model env model_name output_dir stgs vers latest version_model permissions
             deleted_runs formats client_arg s = (Inl (MlflowExportImportException msg 400), s')
         \<and> world s' = world s"
  using assms normalize_stages_world [of env stgs s]
  by (simp add: export_model_def Let_def split_beta)

text \<open>
  The specification's scenario: two versions, the run of the second deleted on the server,
  no filters.
\<close>

theorem export_model_returns_witness:
  "fst (priv_normalize_stages (demo_env [demo_version (VStr ''1'') ''None'' ''r1'',
                                          demo_version (VStr ''2'') ''None'' ''gone''])
          StagesNone demo_state) = []
   \<and> (\<exists>b s'. export_model (demo_env [demo_version (VStr ''1'') ''None'' ''r1'',
                                       demo_version (VStr ''2'') ''None'' ''gone''])
                 ''m'' ''out'' StagesNone None False False False False None None demo_state
               = (Inr (b, ''m''), s'))"
proof -
  let ?env = "demo_env [demo_version (VStr ''1'') ''None'' ''r1'',
                        demo_version (VStr ''2'') ''None'' ''gone'']"
  have h: "fst (priv_normalize_stages ?env StagesNone demo_state) = []"
    by (simp add: priv_normalize_stages_def)
  then have "fst (priv_normalize_stages ?env StagesNone demo_state) = []
               \<or> (None :: version_id list option) = None \<or> None = Some []"
    by simp
  from export_model_returns [OF this, of "''m''" "''out''" False False False False None None]
  show ?thesis using h by blast
qed

theorem conflicting_filters_fail_fast_witness:
  "fst (priv_normalize_stages (demo_env []) (StagesStr ''Production'') demo_state) \<noteq> []
   \<and> (\<exists>msg s'. export_model (demo_env []) ''m'' ''out'' (StagesStr ''Production'')
                   (Some [VStr ''1'']) False False False False None None demo_state
                 = (Inl (MlflowExportImportException msg 400), s')
               \<and> world s' = world demo_state)"
proof -
  have h: "fst (priv_normalize_stages (demo_env []) (StagesStr ''Production'') demo_state) \<noteq> []"
    by (simp add: priv_normalize_stages_def)
  have v: "[VStr ''1''] \<noteq> []" by simp
  from conflicting_filters_fail_fast [OF h refl v,
      of "''m''" "''out''" False False False False None None]
  show ?thesis using h by blast
qed

lemma adjust_versions_length: "adjust_versions env vrs = Inr vrs' \<Longrightarrow> length vrs' = length vrs"
  by (induction vrs arbitrary: vrs') (auto split: sum.splits)

lemma adjust_model_value_length:
  "adjust_model_value env v vrs = Inr (m, vrs') \<Longrightarrow> length vrs' = length vrs"
  by (auto simp: adjust_model_value_def priv_adjust_model_def dict_pop_def Let_def
      split: json.splits sum.splits dest: adjust_versions_length)

lemma fetch_model_plain_length:
  "fetch_model_plain env client model_name vrs s = (Inr (model, vrs'), s') \<Longrightarrow>
     length vrs' = length vrs"
  by (auto simp: fetch_model_plain_def bind_def return_def raise_def lift_exn_def
      split: prod.splits sum.splits option.splits dest: adjust_model_value_length)

lemma fetch_model_databricks_length:
  "fetch_model_databricks env client model_name vrs s = (Inr (model, vrs'), s') \<Longrightarrow>
     length vrs' = length vrs"
  by (auto simp: fetch_model_databricks_def bind_def return_def raise_def lift_exn_def
      dict_pop_def Let_def
      split: prod.splits sum.splits option.splits dest: adjust_model_value_length)

lemma info_attr_counts:
  "dict_get (info_attr opts vrs failed_versions) ''num_src_versions'' = JInt (int (length vrs))
   \<and> dict_get (info_attr opts vrs failed_versions) ''num_dst_versions'' = JInt (int (length vrs))
   \<and> dict_get (info_attr opts vrs failed_versions) ''failed_versions''
       = JList (map JObj failed_versions)"
  by (simp add: info_attr_def dict_get_def)

lemma export_model_steps:
  assumes "priv_export_model env client model_name output_dir opts s = (Inr u, s')"
  shows "\<exists>ori s1 outs fails s2 model vrs' s3 s4.
           call (list_model_versions env client model_name (export_latest_versions opts)) s
             = (Inr ori, s1)
         \<and> priv_export_versions env client ori output_dir opts
             (logger INFO
                (JList [JStr ''Exporting model '', JStr model_name, JStr '': found '',
                        JInt (int (length ori)),
                        JStr (if export_latest_versions opts then ''latest'' else ''all''),
                        JStr '' versions'']) s1)
             = (Inr (outs, fails), s2)
         \<and> length vrs' = length outs
         \<and> call (write_export_file env output_dir ''model.json'' this_file model
                   (info_attr opts vrs' fails)) s3 = (Inr (), s4)
         \<and> s' = logger INFO
                (JList [JStr ''Exported '', JInt (int (length vrs')), JStr ''/'',
                        JInt (int (length ori)),
                        JStr (if export_latest_versions opts then ''latest'' else ''all''),
                        JStr '' versions for model '', JStr model_name]) s4"
  using assms
  by (auto simp: priv_export_model_def bind_def Let_def
      split: prod.splits sum.splits if_splits
      dest: fetch_model_plain_length fetch_model_databricks_length)


lemma export_versions_lengths:
  assumes "priv_export_versions env client vrs output_dir opts s = (Inr (outs, fails), s')"
  shows "length outs + length fails = length (version_selector opts vrs)"
proof -
  let ?sel = "filter (\<lambda>p. selected opts (snd p)) (List.enumerate 0 vrs)"
  from export_versions_returns [OF assms] obtain outs0 where
    l: "export_versions_loop env client vrs 0 (length vrs) output_dir opts [] [] s
          = (Inr (outs0, fails), s')"
    and srt: "py_sort_by ''version'' outs0 = Inr outs"
    by blast
  from l have "export_each env client ?sel (length vrs) output_dir opts [] [] s
          = (Inr (outs0, fails), s')"
    by (simp add: loop_is_export_each)
  from export_each_returns [OF this]
  have "length outs0 + length fails = length ([] :: dict list) + length ([] :: dict list) + length ?sel"
    by blast
  moreover have "length ?sel = length (map snd ?sel)" by simp
  moreover have "map snd ?sel = version_selector opts vrs"
    by (simp add: map_snd_filter_enumerate version_selector_filter)
  moreover have "length outs = length outs0"
    using py_sort_by_mset [OF srt] by (metis size_mset)
  ultimately show ?thesis by simp
qed

text \<open>
  Claim C10. Whenever \<^verbatim>\<open>_export_model\<close> completes, the summary block it hands to the
  file writer has \<open>num_src_versions\<close> and \<open>num_dst_versions\<close> both equal to the length of
  the success list the driver returned for the listed versions, and \<open>failed_versions\<close>
  equal to the driver's failure list. That length is the number of selected versions
  less the number of failed ones: neither failed nor filtered versions are counted,
  and the number of versions found in the registry plays no part.
\<close>

theorem summary_counts_successes:
  assumes "priv_export_model env client model_name output_dir opts s = (Inr u, s')"
  shows "\<exists>ori s1 outs fails s2 model info s3 s4.
           call (list_model_versions env client model_name (export_latest_versions opts)) s
             = (Inr ori, s1)
         \<and> priv_export_versions env client ori output_dir opts
             (logger INFO
                (JList [JStr ''Exporting model '', JStr model_name, JStr '': found '',
                        JInt (int (length ori)),
                        JStr (if export_latest_versions opts then ''latest'' else ''all''),
                        JStr '' versions'']) s1)
             = (Inr (outs, fails), s2)
         \<and> call (write_export_file env output_dir ''model.json'' this_file model info) s3
             = (Inr (), s4)
         \<and> logs s' = logs s4 @
              [Log INFO (JList [JStr ''Exported '', JInt (int (length outs)), JStr ''/'',
                        JInt (int (length ori)),
                        JStr (if export_latest_versions opts then ''latest'' else ''all''),
                        JStr '' versions for model '', JStr model_name])]
         \<and> world s' = world s4
         \<and> dict_get info ''num_src_versions'' = JInt (int (length outs))
         \<and> dict_get info ''num_dst_versions'' = JInt (int (length outs))
         \<and> dict_get info ''failed_versions'' = JList (map JObj fails)
         \<and> length outs + length fails = length (version_selector opts ori)"
proof -
  from export_model_steps [OF assms] obtain ori s1 outs fails s2 model vrs' s3 s4 where
    a: "call (list_model_versions env client model_name (export_latest_versions opts)) s
             = (Inr ori, s1)"
    and b: "priv_export_versions env client ori output_dir opts
             (logger INFO
                (JList [JStr ''Exporting model '', JStr model_name, JStr '': found '',
                        JInt (int (length ori)),
                        JStr (if export_latest_versions opts then ''latest'' else ''all''),
                        JStr '' versions'']) s1)
             = (Inr (outs, fails), s2)"
    and c: "length vrs' = length outs"
    and d: "call (write_export_file env output_dir ''model.json'' this_file model
                   (info_attr opts vrs' fails)) s3 = (Inr (), s4)"
    and e: "s' = logger INFO
                (JList [JStr ''Exported '', JInt (int (length vrs')), JStr ''/'',
                        JInt (int (length ori)),
                        JStr (if export_latest_versions opts then ''latest'' else ''all''),
                        JStr '' versions for model '', JStr model_name]) s4"
    by blast
  note i = info_attr_counts [of opts vrs' fails, unfolded c]
  have l: "logs s' = logs s4 @
              [Log INFO (JList [JStr ''Exported '', JInt (int (length outs)), JStr ''/'',
                        JInt (int (length ori)),
                        JStr (if export_latest_versions opts then ''latest'' else ''all''),
                        JStr '' versions for model '', JStr model_name])]"
    "world s' = world s4"
    unfolding e c by (simp_all add: logger_def)
  note n = export_versions_lengths [OF b]
  show ?thesis
    by (intro exI conjI) (rule a b d l i [THEN conjunct1] i [THEN conjunct2, THEN conjunct1]
        i [THEN conjunct2, THEN conjunct2] n)+
qed

lemmas model_simps = priv_export_model_def fetch_model_plain_def fetch_model_databricks_def
  adjust_model_value_def priv_adjust_model_def priv_adjust_timestamp_def dict_pop_def
  lift_exn_def info_attr_def this_file_def

text \<open>
  Three versions are found, the version filter selects two of them, one of the two fails:
  both counts are 1.
\<close>

theorem summary_counts_successes_witness:
  "\<exists>s' (outs :: dict list) fails info s3 s4 model.
     priv_export_model
       (demo_env [demo_version (VInt 3) ''Production'' ''r3'',
                  demo_version (VInt 1) ''Archived'' ''gone'',
                  demo_version (VInt 2) ''Staging'' ''r2''])
       demo_client ''m'' ''out'' (demo_opts\<lparr>versions := [VInt 1, VInt 3]\<rparr>) demo_state
       = (Inr (), s')
     \<and> length outs + length fails = 2
     \<and> length fails = 1
     \<and> call (write_export_file
               (demo_env [demo_version (VInt 3) ''Production'' ''r3'',
                          demo_version (VInt 1) ''Archived'' ''gone'',
                          demo_version (VInt 2) ''Staging'' ''r2''])
               ''out'' ''model.json'' this_file model info) s3 = (Inr (), s4)
     \<and> dict_get info ''num_src_versions'' = JInt (int (length outs))
     \<and> dict_get info ''num_dst_versions'' = JInt (int (length outs))
     \<and> dict_get info ''failed_versions'' = JList (map JObj fails)"
proof -
  let ?reg = "[demo_version (VInt 3) ''Production'' ''r3'',
               demo_version (VInt 1) ''Archived'' ''gone'',
               demo_version (VInt 2) ''Staging'' ''r2'']"
  let ?opts = "demo_opts\<lparr>versions := [VInt 1, VInt 3]\<rparr>"
  obtain r s' where r: "priv_export_model (demo_env ?reg) demo_client ''m'' ''out'' ?opts
                          demo_state = (r, s')"
    by (cases "priv_export_model (demo_env ?reg) demo_client ''m'' ''out'' ?opts demo_state")
  have "r = Inr ()"
    using r [symmetric] by (simp add: demo_simps prog_simps model_simps)
  with r have ok: "priv_export_model (demo_env ?reg) demo_client ''m'' ''out'' ?opts
                          demo_state = (Inr (), s')"
    by simp
  from summary_counts_successes [OF ok] show ?thesis
  proof (elim exE conjE)
    fix ori s1 and outs :: "dict list" and fails s2 model info s3 s4
    assume a: "call (list_model_versions (demo_env ?reg) demo_client ''m''
               (export_latest_versions ?opts)) demo_state = (Inr ori, s1)"
      and d: "call (write_export_file (demo_env ?reg) ''out'' ''model.json'' this_file model info)
                s3 = (Inr (), s4)"
      and l: "logs s' = logs s4 @
              [Log INFO (JList [JStr ''Exported '', JInt (int (length outs)), JStr ''/'',
                        JInt (int (length ori)),
                        JStr (if export_latest_versions ?opts then ''latest'' else ''all''),
                        JStr '' versions for model '', JStr ''m''])]"
      and i: "dict_get info ''num_src_versions'' = JInt (int (length outs))"
        "dict_get info ''num_dst_versions'' = JInt (int (length outs))"
        "dict_get info ''failed_versions'' = JList (map JObj fails)"
      and n: "length outs + length fails = length (version_selector ?opts ori)"
    from a have ori: "ori = ?reg"
      by (simp add: call_def demo_env_def split: prod.splits)
    have 2: "length outs + length fails = 2"
      using n unfolding ori by (simp add: version_selector_def demo_opts_def demo_version_def)
    have "last (logs s') = Log INFO (JList [JStr ''Exported '', JInt 1, JStr ''/'',
                        JInt 3, JStr ''all'', JStr '' versions for model '', JStr ''m''])"
      using ok [symmetric] by (simp add: demo_simps prog_simps model_simps)
    with l have "int (length outs) = 1" by simp
    with 2 have 1: "length fails = 1" by simp
    show ?thesis
      by (intro exI conjI) (rule ok 2 1 d i)+
  qed
qed

section \<open>Properties of the run copy orchestrator\<close>

lemma rmtree_removes: "\<not> path_exists (rmtree d w) d"
  by (simp add: rmtree_def path_exists_def)

lemma with_TemporaryDirectory_releases:
  assumes "mkdtemp env w = (Inr d, w1)"
  shows "\<not> path_exists (snd (with_TemporaryDirectory env body w)) d"
  using assms
  by (simp add: with_TemporaryDirectory_def rmtree_removes split: prod.splits)

text \<open>
  Claim C6. Once the copy has acquired its staging directory, the directory does not
  exist when the call is over, whatever the exporter and the importer do: when the export
  raises, when the export returns and the import raises, and when both return. In the
  first two cases the exception reaches the caller after the release, in the last the
  caller gets the new run.
\<close>

theorem staging_directory_released:
  assumes "mkdtemp env w = (Inr d, w1)"
  shows "\<not> path_exists (snd (priv_copy env src_run_id dst_experiment_name src_client dst_client w)) d
       \<and> (\<forall>e w2. export_run env src_run_id d None (Some [''SOURCE'']) (Some src_client) w1
                    = (Inl e, w2) \<longrightarrow>
             priv_copy env src_run_id dst_experiment_name src_client dst_client w
               = (Inl e, rmtree d w2))
       \<and> (\<forall>w2 e w3. export_run env src_run_id d None (Some [''SOURCE'']) (Some src_client) w1
                    = (Inr (), w2)
                  \<and> import_run env d dst_experiment_name dst_client w2 = (Inl e, w3) \<longrightarrow>
             priv_copy env src_run_id dst_experiment_name src_client dst_client w
               = (Inl e, rmtree d w3))
       \<and> (\<forall>w2 dst_run meta w3.
               export_run env src_run_id d None (Some [''SOURCE'']) (Some src_client) w1
                    = (Inr (), w2)
             \<and> import_run env d dst_experiment_name dst_client w2 = (Inr (dst_run, meta), w3) \<longrightarrow>
             priv_copy env src_run_id dst_experiment_name src_client dst_client w
               = (Inr dst_run, rmtree d w3))"
proof -
  have 1: "\<not> path_exists
              (snd (priv_copy env src_run_id dst_experiment_name src_client dst_client w)) d"
    unfolding priv_copy_def using assms by (rule with_TemporaryDirectory_releases)
  have 2: "\<forall>e w2. export_run env src_run_id d None (Some [''SOURCE'']) (Some src_client) w1
                    = (Inl e, w2) \<longrightarrow>
             priv_copy env src_run_id dst_experiment_name src_client dst_client w
               = (Inl e, rmtree d w2)"
    using assms by (simp add: priv_copy_def with_TemporaryDirectory_def bind_def)
  have 3: "\<forall>w2 e w3. export_run env src_run_id d None (Some [''SOURCE'']) (Some src_client) w1
                    = (Inr (), w2)
                  \<and> import_run env d dst_experiment_name dst_client w2 = (Inl e, w3) \<longrightarrow>
             priv_copy env src_run_id dst_experiment_name src_client dst_client w
               = (Inl e, rmtree d w3)"
    using assms by (simp add: priv_copy_def with_TemporaryDirectory_def bind_def)
  have 4: "\<forall>w2 dst_run meta w3.
               export_run env src_run_id d None (Some [''SOURCE'']) (Some src_client) w1
                    = (Inr (), w2)
             \<and> import_run env d dst_experiment_name dst_client w2 = (Inr (dst_run, meta), w3) \<longrightarrow>
             priv_copy env src_run_id dst_experiment_name src_client dst_client w
               = (Inr dst_run, rmtree d w3)"
    using assms by (simp add: priv_copy_def with_TemporaryDirectory_def bind_def return_def)
  from 1 2 3 4 show ?thesis by blast
qed

text \<open>
  A copy that succeeds, one whose import is refused and one whose export fails: after each
  of them the staging directory is gone.
\<close>

theorem staging_directory_released_witness:
  "mkdtemp (demo_env []) demo_world0
     = (Inr ''/tmp/tmp0'',
        \<lparr> paths = [''/data'', ''/tmp/tmp0''], trace = [MkDTemp ''/tmp/tmp0''] \<rparr>)
   \<and> fst (copy (demo_env []) ''r1'' ''exp-dst'' ''http://a'' ''http://b'' demo_world0)
       = Inr (JObj [(''experiment'', JStr ''exp-dst'')])
   \<and> \<not> path_exists
         (snd (copy (demo_env []) ''r1'' ''exp-dst'' ''http://a'' ''http://b'' demo_world0))
         ''/tmp/tmp0''
   \<and> fst (copy (demo_env []) ''r1'' ''denied'' ''http://a'' ''http://b'' demo_world0)
       = Inl (RestException [(''error_code'', JStr ''PERMISSION_DENIED'')])
   \<and> \<not> path_exists
         (snd (copy (demo_env []) ''r1'' ''denied'' ''http://a'' ''http://b'' demo_world0))
         ''/tmp/tmp0''
   \<and> fst (copy (demo_env []) ''broken'' ''exp-dst'' ''http://a'' ''http://b'' demo_world0)
       = Inl (OtherException ''OSError'')
   \<and> \<not> path_exists
         (snd (copy (demo_env []) ''broken'' ''exp-dst'' ''http://a'' ''http://b'' demo_world0))
         ''/tmp/tmp0''"
proof -
  have m: "mkdtemp (demo_env []) demo_world0
     = (Inr ''/tmp/tmp0'',
        \<lparr> paths = [''/data'', ''/tmp/tmp0''], trace = [MkDTemp ''/tmp/tmp0''] \<rparr>)"
    by (simp add: demo_env_def demo_world0_def emit_def)
  note rel = staging_directory_released [OF m, THEN conjunct1]
  have r: "fst (copy (demo_env []) ''r1'' ''exp-dst'' ''http://a'' ''http://b'' demo_world0)
       = Inr (JObj [(''experiment'', JStr ''exp-dst'')])"
    "fst (copy (demo_env []) ''r1'' ''denied'' ''http://a'' ''http://b'' demo_world0)
       = Inl (RestException [(''error_code'', JStr ''PERMISSION_DENIED'')])"
    "fst (copy (demo_env []) ''broken'' ''exp-dst'' ''http://a'' ''http://b'' demo_world0)
       = Inl (OtherException ''OSError'')"
    by (simp_all add: copy_def priv_copy_def with_TemporaryDirectory_def bind_def return_def
        demo_env_def demo_world0_def emit_def demo_export_run_def demo_import_run_def)
  show ?thesis
    unfolding copy_def [of "demo_env []"]
    using m rel r [unfolded copy_def] by simp
qed

end
